theory Spec2Isabelle
  imports Complex_Main "HOL-Library.Word"
begin

section \<open>JavaScript values, errors and control outcomes\<close>

text \<open>
  The embedding follows \<^verbatim>\<open>mev_optimized.js\<close>. A thrown JavaScript exception is the
  \<open>Inl\<close> of a sum; \<open>Error msg\<close> is \<^verbatim>\<open>new Error(msg)\<close> or any error object with
  that message. Console output is not modelled, except for what the loop over the
  lookup tables of a response does with each table.
\<close>

datatype error = Error string

text \<open>
  Every \<^verbatim>\<open>catch\<close> block of the program reads the \<^verbatim>\<open>message\<close> of what it caught, and
  reading a property of \<^verbatim>\<open>null\<close> or \<^verbatim>\<open>undefined\<close> throws a TypeError. A value as it
  is thrown is therefore an object, whose message can be read, or nullish. The
  pricing and instruction services and the RPC calls of the submission reject with
  error objects; each of them is called under a handler of its own stage, so what the
  stage passes on is an error object in any case. Two thrown values come from the
  chain library and reach the outer handler of \<^verbatim>\<open>checkAndTrade\<close> with no other
  handler before it: the rejection of \<^verbatim>\<open>getLatestBlockhash\<close> and what \<^verbatim>\<open>sign\<close>
  throws. For these two the embedding keeps the nullish case.
\<close>

datatype thrown = Object error | Nullish

text \<open>
  The JavaScript values a JSON field of the pricing service can hold, as far as the
  code inspects them: absent (\<open>JUndefined\<close>), \<^verbatim>\<open>null\<close>, a boolean, an integral number,
  a string. Fractional numbers, arrays and objects are outside the model.
\<close>

datatype jval = JUndefined | JNull | JBool bool | JNum int | JStr string

fun truthy :: "jval \<Rightarrow> bool" where
  "truthy JUndefined = False"
| "truthy JNull = False"
| "truthy (JBool b) = b"
| "truthy (JNum n) = (n \<noteq> 0)"
| "truthy (JStr s) = (s \<noteq> [])"

subsection \<open>The built-in \<^verbatim>\<open>BigInt(v)\<close>\<close>

text \<open>
  \<^verbatim>\<open>BigInt\<close> of a string follows the StringToBigInt grammar of ECMAScript: white space
  is trimmed, the empty string is \<open>0\<close>, then either an optionally signed run of decimal
  digits or an unsigned \<^verbatim>\<open>0x\<close>, \<^verbatim>\<open>0o\<close>, \<^verbatim>\<open>0b\<close> literal; anything else is a SyntaxError.
  Only the ASCII white space characters are covered.
\<close>

definition is_white :: "char \<Rightarrow> bool" where
  "is_white c = (c \<in> set [CHR 0x09, CHR 0x0A, CHR 0x0B, CHR 0x0C, CHR 0x0D, CHR 0x20])"

definition trim :: "string \<Rightarrow> string" where
  "trim s = rev (dropWhile is_white (rev (dropWhile is_white s)))"

definition digit_of :: "char \<Rightarrow> nat option" where
  "digit_of c =
     (let n = (of_char c :: nat)
      in if 48 \<le> n \<and> n \<le> 57 then Some (n - 48)
         else if 97 \<le> n \<and> n \<le> 102 then Some (n - 87)
         else if 65 \<le> n \<and> n \<le> 70 then Some (n - 55)
         else None)"

fun digits_value :: "nat \<Rightarrow> nat \<Rightarrow> string \<Rightarrow> nat option" where
  "digits_value r acc [] = Some acc"
| "digits_value r acc (c # cs) =
     (case digit_of c of
        None \<Rightarrow> None
      | Some d \<Rightarrow> if d < r then digits_value r (acc * r + d) cs else None)"

definition parse_digits :: "nat \<Rightarrow> string \<Rightarrow> int option" where
  "parse_digits r cs = (if cs = [] then None else map_option int (digits_value r 0 cs))"

definition StringToBigInt :: "string \<Rightarrow> int option" where
  "StringToBigInt s =
     (case trim s of
        [] \<Rightarrow> Some 0
      | c # cs \<Rightarrow>
          if c = CHR ''-'' then map_option uminus (parse_digits 10 cs)
          else if c = CHR ''+'' then parse_digits 10 cs
          else if c = CHR ''0'' then
            (case cs of
               [] \<Rightarrow> Some 0
             | p # ds \<Rightarrow>
                 if p = CHR ''x'' \<or> p = CHR ''X'' then parse_digits 16 ds
                 else if p = CHR ''o'' \<or> p = CHR ''O'' then parse_digits 8 ds
                 else if p = CHR ''b'' \<or> p = CHR ''B'' then parse_digits 2 ds
                 else parse_digits 10 (c # cs))
          else parse_digits 10 (c # cs))"

fun BigInt :: "jval \<Rightarrow> error + int" where
  "BigInt JUndefined = Inl (Error ''Cannot convert undefined to a BigInt'')"
| "BigInt JNull = Inl (Error ''Cannot convert null to a BigInt'')"
| "BigInt (JBool b) = Inr (if b then 1 else 0)"
| "BigInt (JNum n) = Inr n"
| "BigInt (JStr s) =
     (case StringToBigInt s of
        None \<Rightarrow> Inl (Error (''Cannot convert '' @ s @ '' to a BigInt''))
      | Some n \<Rightarrow> Inr n)"

text \<open>
  What one pass through the body of a retrying \<^verbatim>\<open>for\<close> loop does: \<^verbatim>\<open>return\<close> a value,
  \<^verbatim>\<open>continue\<close> with the next iteration, or throw into the loop's \<^verbatim>\<open>catch\<close>.
\<close>

datatype 'a attempt = Return 'a | Continue | Throw error

section \<open>Data of the services and of the chain library\<close>

type_synonym bytes = "8 word list"

record quote_request =
  inputMint :: string
  outputMint :: string
  amount :: jval
  slippageBps :: nat
  onlyDirectRoutes :: bool

record quote_response =
  outAmount :: jval
  routePlan :: string

record account_meta =
  acc_pubkey :: string
  isSigner :: bool
  isWritable :: bool

record swap_instruction =
  si_programId :: string
  si_accounts :: "account_meta list"
  si_data :: string

record alt_blob =
  accountKey :: string
  blob_data :: string

record swap_response =
  swapInstruction :: "swap_instruction option"
  addressLookupTableAccounts :: "alt_blob list option"

record swap_request =
  quoteResponse :: quote_response
  userPublicKey :: string
  wrapAndUnwrapSol :: bool
  computeUnitPriceMicroLamports :: nat

text \<open>
  Objects built by \<^verbatim>\<open>@solana/web3.js\<close> are represented by the arguments they were
  built from; what the library does with them (serialising, rejecting) is a function
  of the environment below.
\<close>

record instruction =
  ix_programId :: string
  ix_keys :: "account_meta list"
  ix_data :: bytes

record alt =
  alt_key :: string
  alt_raw :: bytes

record tx_message =
  payerKey :: string
  recentBlockhash :: string
  msg_instructions :: "instruction list"

record versioned_tx =
  tx_msg :: tx_message
  tx_lookupTables :: "alt list"
  tx_signers :: "string list"

record swap_payload =
  instructions :: "instruction list"
  lookupTables :: "alt list"

text \<open>JavaScript numbers that are not integers are idealised as exact rationals.\<close>

datatype pval = PNum rat | PStr string

type_synonym js_object = "(string \<times> pval) list"

section \<open>Events and environment\<close>

text \<open>
  Every interaction with the outside world is an event. A function that performs
  interactions takes the number \<open>t\<close> of events that happened before it started and
  returns the events it performed, in order; the \<open>k\<close>-th of them is event number
  \<open>t + k\<close> of the run. The answer of the outside world to event number \<open>t\<close> is read
  from the environment at \<open>t\<close>, so an environment is one possible behaviour of the
  services over time.
\<close>

datatype event =
    FetchQuote quote_request
  | FetchSwapInstructions swap_request
  | Notify js_object
  | Sleep nat
  | GetLatestBlockhash
  | Simulate versioned_tx
  | SendTransaction versioned_tx
  | ConfirmTransaction "string option" string nat

text \<open>
  The first six fields are the network, each read at the number of the event that
  asks: the answer of the pricing service, of the instruction service, and of the RPC
  calls \<^verbatim>\<open>getLatestBlockhash\<close>, \<^verbatim>\<open>simulateTransaction\<close> (the \<^verbatim>\<open>value.err\<close> of the
  answer), \<^verbatim>\<open>sendTransaction\<close> and \<^verbatim>\<open>confirmTransaction\<close> (again \<^verbatim>\<open>value.err\<close>); \<open>Inl\<close>
  is a rejected promise. The other fields are the library: whether \<^verbatim>\<open>new PublicKey(s)\<close>
  throws, \<^verbatim>\<open>Buffer.from(s, 'base64')\<close>, whether \<^verbatim>\<open>AddressLookupTableAccount.deserialize\<close>
  throws, \<^verbatim>\<open>tbl.serialize()\<close>, the error \<^verbatim>\<open>compileToV0Message\<close> throws if any,
  \<^verbatim>\<open>transaction.serialize()\<close>, and what \<^verbatim>\<open>sign\<close> throws if anything.
\<close>

record env =
  quote_api :: "nat \<Rightarrow> error + quote_response"
  swap_api :: "nat \<Rightarrow> error + swap_response"
  blockhash_rpc :: "nat \<Rightarrow> thrown + (string \<times> nat)"
  simulate_rpc :: "nat \<Rightarrow> error + string option"
  send_rpc :: "nat \<Rightarrow> error + string"
  confirm_rpc :: "nat \<Rightarrow> error + string option"
  pubkey_invalid :: "string \<Rightarrow> bool"
  base64_decode :: "string \<Rightarrow> bytes"
  alt_deserialize_throws :: "string \<Rightarrow> bytes \<Rightarrow> bool"
  alt_serialize :: "alt \<Rightarrow> error + bytes"
  compileToV0Message :: "tx_message \<Rightarrow> alt list \<Rightarrow> error option"
  tx_serialize :: "versioned_tx \<Rightarrow> error + bytes"
  sign_throws :: "versioned_tx \<Rightarrow> thrown option"

section \<open>Configuration\<close>

text \<open>
  The module-level constants that the user of the program edits are the fields of a
  configuration; \<open>wallet_publicKey\<close> is \<^verbatim>\<open>wallet.publicKey.toBase58()\<close>, which the library
  derives from the key. The other constants are fixed.
\<close>

record config =
  PRIVATE_KEY_BASE58 :: string
  wallet_publicKey :: string
  INPUT_USDC :: int
  MIN_PROFIT_USDC :: int

definition USDC_MINT :: string where
  "USDC_MINT = ''EPjFWdd5AufqSSqeM2qN1xzybapC8G4wEGGkZwyTDt1v''"

definition WSOL_MINT :: string where
  "WSOL_MINT = ''So11111111111111111111111111111111111111112''"

definition SLIPPAGE_BPS :: nat where
  "SLIPPAGE_BPS = 1"

definition MAX_TX_SIZE :: nat where
  "MAX_TX_SIZE = 1232"

definition MAX_RETRIES :: nat where
  "MAX_RETRIES = 3"

text \<open>
  The values the source file ships with. The key is the placeholder of the source and
  the public key a name for the one the library would derive.
\<close>

definition source_config :: config where
  "source_config =
     \<lparr>PRIVATE_KEY_BASE58 = ''PRIVATE_KEY_BASE58'',
      wallet_publicKey = ''WALLET'',
      INPUT_USDC = 10000000,
      MIN_PROFIT_USDC = 1200\<rparr>"

section \<open>Quote functions\<close>

subsection \<open>\<^verbatim>\<open>getQuote\<close>\<close>

text \<open>The request, by the query parameters of its URL.\<close>

definition quote_url :: "string \<Rightarrow> string \<Rightarrow> jval \<Rightarrow> quote_request" where
  "quote_url inMint outMint amt =
     \<lparr>inputMint = inMint, outputMint = outMint, amount = amt,
      slippageBps = SLIPPAGE_BPS, onlyDirectRoutes = True\<rparr>"

text \<open>
  The \<^verbatim>\<open>try\<close> block of one iteration, performed as event \<open>t\<close>: the request, then
  \<^verbatim>\<open>if (!res?.outAmount) throw new Error('Failed to get quote')\<close>.
\<close>

definition quote_attempt :: "env \<Rightarrow> nat \<Rightarrow> error + quote_response" where
  "quote_attempt e t =
     (case quote_api e t of
        Inl err \<Rightarrow> Inl err
      | Inr res \<Rightarrow>
          if truthy (outAmount res) then Inr res else Inl (Error ''Failed to get quote''))"

text \<open>
  The loop \<^verbatim>\<open>for (let i = 0; i < retries; i++)\<close> from iteration \<open>i\<close> on, started at
  time \<open>t\<close>; \<open>retries\<close> is a count, a natural number. A loop that runs out without
  returning or throwing makes the function return \<^verbatim>\<open>undefined\<close>: \<open>Inr None\<close>.
\<close>

function getQuote_from ::
  "env \<Rightarrow> quote_request \<Rightarrow> nat \<Rightarrow> nat \<Rightarrow> nat \<Rightarrow> (error + quote_response option) \<times> event list"
where
  "getQuote_from e req retries i t =
     (if i < retries then
        (case quote_attempt e t of
           Inr res \<Rightarrow> (Inr (Some res), [FetchQuote req])
         | Inl err \<Rightarrow>
             if i = retries - 1 then (Inl err, [FetchQuote req])
             else (case getQuote_from e req retries (i + 1) (t + 2) of
                     (r, es) \<Rightarrow> (r, FetchQuote req # Sleep (1000 * (i + 1)) # es)))
      else (Inr None, []))"
  by pat_completeness auto
termination
  by (relation "measure (\<lambda>(e, req, retries, i, t). retries - i)") auto

definition getQuote ::
  "env \<Rightarrow> string \<Rightarrow> string \<Rightarrow> jval \<Rightarrow> nat \<Rightarrow> nat \<Rightarrow> (error + quote_response option) \<times> event list"
where
  "getQuote e inMint outMint amt retries t =
     getQuote_from e (quote_url inMint outMint amt) retries 0 t"

subsection \<open>\<^verbatim>\<open>getSwapPayload\<close>\<close>

definition maxAlts :: nat where
  "maxAlts = 2"

text \<open>
  \<^verbatim>\<open>new TransactionInstruction({...})\<close>: each \<^verbatim>\<open>new PublicKey(..)\<close> throws on a string
  that is not a key.
\<close>

definition build_instruction :: "env \<Rightarrow> swap_instruction \<Rightarrow> error + instruction" where
  "build_instruction e si =
     (if pubkey_invalid e (si_programId si) then Inl (Error ''Invalid public key input'')
      else if list_ex (\<lambda>a. pubkey_invalid e (acc_pubkey a)) (si_accounts si)
        then Inl (Error ''Invalid public key input'')
      else Inr \<lparr>ix_programId = si_programId si, ix_keys = si_accounts si,
                ix_data = base64_decode e (si_data si)\<rparr>)"

text \<open>
  The two warnings the loop over the tables of the response prints, by the table they
  name: \<^verbatim>\<open>ALT k too large (n bytes), skipping\<close> and \<^verbatim>\<open>Error deserializing ALT k\<close>, the
  error message that follows the second left out.
\<close>

datatype alt_warning = TooLarge string nat | NotDeserialized string

text \<open>
  The loop over the tables of the response, with the tables pushed and the warnings
  printed so far. An oversized table is skipped by \<^verbatim>\<open>continue\<close> after its warning; a
  table whose key or bytes the library rejects throws into the loop's own \<^verbatim>\<open>catch\<close>,
  which prints the other warning and goes on with the next table. A table that is
  pushed prints nothing.
\<close>

fun collect_alts ::
  "env \<Rightarrow> alt_blob list \<Rightarrow> alt list \<Rightarrow> alt_warning list \<Rightarrow> alt list \<times> alt_warning list"
where
  "collect_alts e [] tables warnings = (tables, warnings)"
| "collect_alts e (tbl # rest) tables warnings =
     (let raw = base64_decode e (blob_data tbl)
      in if length raw > 1000
           then collect_alts e rest tables (warnings @ [TooLarge (accountKey tbl) (length raw)])
         else if pubkey_invalid e (accountKey tbl)
           then collect_alts e rest tables (warnings @ [NotDeserialized (accountKey tbl)])
         else if alt_deserialize_throws e (accountKey tbl) raw
           then collect_alts e rest tables (warnings @ [NotDeserialized (accountKey tbl)])
         else (let tables' = tables @ [\<lparr>alt_key = accountKey tbl, alt_raw = raw\<rparr>]
               in if length tables' \<ge> maxAlts then (tables', warnings)
                  else collect_alts e rest tables' warnings))"

text \<open>
  \<^verbatim>\<open>(res.addressLookupTableAccounts || []).slice(0, maxAlts)\<close> and the loop over it: the
  tables of the payload and the warnings printed.
\<close>

definition examine_response :: "env \<Rightarrow> swap_response \<Rightarrow> alt list \<times> alt_warning list" where
  "examine_response e res =
     collect_alts e
       (take maxAlts (case addressLookupTableAccounts res of None \<Rightarrow> [] | Some l \<Rightarrow> l)) [] []"

definition response_alts :: "env \<Rightarrow> swap_response \<Rightarrow> alt list" where
  "response_alts e res = fst (examine_response e res)"

definition response_warnings :: "env \<Rightarrow> swap_response \<Rightarrow> alt_warning list" where
  "response_warnings e res = snd (examine_response e res)"

definition swap_request_of :: "config \<Rightarrow> quote_response \<Rightarrow> swap_request" where
  "swap_request_of cfg quote =
     \<lparr>quoteResponse = quote, userPublicKey = wallet_publicKey cfg,
      wrapAndUnwrapSol = True, computeUnitPriceMicroLamports = 1000\<rparr>"

definition swap_attempt :: "env \<Rightarrow> nat \<Rightarrow> error + swap_payload" where
  "swap_attempt e t =
     (case swap_api e t of
        Inl err \<Rightarrow> Inl err
      | Inr res \<Rightarrow>
          (case swapInstruction res of
             None \<Rightarrow> Inl (Error ''Failed to get swap instructions'')
           | Some si \<Rightarrow>
               (case build_instruction e si of
                  Inl err \<Rightarrow> Inl err
                | Inr ix \<Rightarrow> Inr \<lparr>instructions = [ix], lookupTables = response_alts e res\<rparr>)))"

function getSwapPayload_from ::
  "env \<Rightarrow> swap_request \<Rightarrow> nat \<Rightarrow> nat \<Rightarrow> nat \<Rightarrow> (error + swap_payload option) \<times> event list"
where
  "getSwapPayload_from e req retries i t =
     (if i < retries then
        (case swap_attempt e t of
           Inr res \<Rightarrow> (Inr (Some res), [FetchSwapInstructions req])
         | Inl err \<Rightarrow>
             if i = retries - 1 then (Inl err, [FetchSwapInstructions req])
             else (case getSwapPayload_from e req retries (i + 1) (t + 2) of
                     (r, es) \<Rightarrow> (r, FetchSwapInstructions req # Sleep (1000 * (i + 1)) # es)))
      else (Inr None, []))"
  by pat_completeness auto
termination
  by (relation "measure (\<lambda>(e, req, retries, i, t). retries - i)") auto

definition getSwapPayload ::
  "config \<Rightarrow> env \<Rightarrow> quote_response \<Rightarrow> nat \<Rightarrow> nat \<Rightarrow> (error + swap_payload option) \<times> event list"
where
  "getSwapPayload cfg e quote retries t =
     getSwapPayload_from e (swap_request_of cfg quote) retries 0 t"

section \<open>Utility functions\<close>

text \<open>
  \<^verbatim>\<open>BotOpportunity\<close> posts \<^verbatim>\<open>JSON.stringify(opportunity)\<close> to the messaging endpoint and
  swallows a failed request; the event carries the fields that are written out.
\<close>

definition BotOpportunity :: "js_object \<Rightarrow> event list" where
  "BotOpportunity opportunity = [Notify opportunity]"

record validation =
  valid :: bool
  v_size :: nat
  v_error :: "string option"

definition validateAndOptimizeTransaction :: "env \<Rightarrow> versioned_tx \<Rightarrow> validation" where
  "validateAndOptimizeTransaction e transaction =
     (case tx_serialize e transaction of
        Inr serialized \<Rightarrow>
          (let sz = length serialized
           in if sz > MAX_TX_SIZE then \<lparr>valid = False, v_size = sz, v_error = Some ''TOO_LARGE''\<rparr>
              else \<lparr>valid = True, v_size = sz, v_error = None\<rparr>)
      | Inl (Error msg) \<Rightarrow> \<lparr>valid = False, v_size = 0, v_error = Some msg\<rparr>)"

text \<open>
  One strategy of \<^verbatim>\<open>createOptimizedTransaction\<close>: compile with the given tables, wrap
  the message in an unsigned transaction, validate; a throw is caught and logged.
\<close>

definition compile_tx :: "config \<Rightarrow> alt list \<Rightarrow> instruction list \<Rightarrow> string \<Rightarrow> versioned_tx" where
  "compile_tx cfg tables ins blockhash =
     \<lparr>tx_msg = \<lparr>payerKey = wallet_publicKey cfg, recentBlockhash = blockhash,
                 msg_instructions = ins\<rparr>,
      tx_lookupTables = tables, tx_signers = []\<rparr>"

definition try_strategy ::
  "config \<Rightarrow> env \<Rightarrow> instruction list \<Rightarrow> alt list \<Rightarrow> string \<Rightarrow> versioned_tx option"
where
  "try_strategy cfg e ins tables blockhash =
     (let tx = compile_tx cfg tables ins blockhash
      in case compileToV0Message e (tx_msg tx) tables of
           Some err \<Rightarrow> None
         | None \<Rightarrow> if valid (validateAndOptimizeTransaction e tx) then Some tx else None)"

definition createOptimizedTransaction ::
  "config \<Rightarrow> env \<Rightarrow> instruction list \<Rightarrow> alt list \<Rightarrow> string \<Rightarrow> versioned_tx option"
where
  "createOptimizedTransaction cfg e ins tables blockhash =
     (case (if length tables > 0 then try_strategy cfg e ins tables blockhash else None) of
        Some tx \<Rightarrow> Some tx
      | None \<Rightarrow>
          (case try_strategy cfg e ins [] blockhash of
             Some tx \<Rightarrow> Some tx
           | None \<Rightarrow> None))"

text \<open>\<^verbatim>\<open>simulateTransaction\<close>, performed as event \<open>t\<close>.\<close>

definition simulateTransaction :: "env \<Rightarrow> nat \<Rightarrow> bool" where
  "simulateTransaction e t =
     (case simulate_rpc e t of
        Inl err \<Rightarrow> False
      | Inr None \<Rightarrow> True
      | Inr (Some err) \<Rightarrow> False)"

text \<open>The \<^verbatim>\<open>try\<close> block of one iteration of \<^verbatim>\<open>sendTransactionWithSimulation\<close>.\<close>

definition send_attempt ::
  "env \<Rightarrow> versioned_tx \<Rightarrow> nat \<Rightarrow> nat \<Rightarrow> nat \<Rightarrow> string attempt \<times> event list"
where
  "send_attempt e transaction retries i t =
     (if \<not> simulateTransaction e t then
        (if i = retries - 1
         then (Throw (Error ''Simulation failed on all attempts''), [Simulate transaction])
         else (Continue, [Simulate transaction, Sleep (1000 * (i + 1))]))
      else (case send_rpc e (t + 1) of
              Inr txid \<Rightarrow> (Return txid, [Simulate transaction, SendTransaction transaction])
            | Inl err \<Rightarrow> (Throw err, [Simulate transaction, SendTransaction transaction])))"

function sendTransactionWithSimulation_from ::
  "env \<Rightarrow> versioned_tx \<Rightarrow> nat \<Rightarrow> nat \<Rightarrow> nat \<Rightarrow> (error + string option) \<times> event list"
where
  "sendTransactionWithSimulation_from e transaction retries i t =
     (if i < retries then
        (case send_attempt e transaction retries i t of
           (Return txid, es) \<Rightarrow> (Inr (Some txid), es)
         | (Continue, es) \<Rightarrow>
             (case sendTransactionWithSimulation_from e transaction retries (i + 1)
                     (t + length es) of
                (r, es') \<Rightarrow> (r, es @ es'))
         | (Throw err, es) \<Rightarrow>
             if i = retries - 1 then (Inl err, es)
             else (case sendTransactionWithSimulation_from e transaction retries (i + 1)
                          (t + length es + 1) of
                     (r, es') \<Rightarrow> (r, es @ Sleep (1000 * (i + 1)) # es')))
      else (Inr None, []))"
  by pat_completeness auto
termination
  by (relation "measure (\<lambda>(e, transaction, retries, i, t). retries - i)") auto

definition sendTransactionWithSimulation ::
  "env \<Rightarrow> versioned_tx \<Rightarrow> nat \<Rightarrow> nat \<Rightarrow> (error + string option) \<times> event list"
where
  "sendTransactionWithSimulation e transaction retries t =
     sendTransactionWithSimulation_from e transaction retries 0 t"

section \<open>Main trading logic\<close>

text \<open>
  \<^verbatim>\<open>checkAndTrade\<close> returns a boolean; each \<^verbatim>\<open>return false\<close> of it follows a console
  message of its own. The outcome of a cycle keeps which one it was: the boolean the
  function returns is \<open>succeeded\<close>, the reason is the message.
\<close>

datatype failure =
    InsufficientProfit
  | NoValidTransaction
  | SendError error
  | CycleError error

datatype outcome = Confirmed | Failed failure

fun succeeded :: "outcome \<Rightarrow> bool" where
  "succeeded Confirmed = True"
| "succeeded (Failed reason) = False"

subsection \<open>Step 4 of \<^verbatim>\<open>checkAndTrade\<close>: the lookup tables\<close>

record alt_size =
  as_alt :: alt
  as_size :: nat
  as_key :: string

text \<open>
  The loop \<^verbatim>\<open>for (const tbl of allAlts)\<close> with its set \<^verbatim>\<open>seen\<close> and its array
  \<^verbatim>\<open>altSizes\<close>. The tables come from \<^verbatim>\<open>getSwapPayload\<close>, which pushes library objects
  only, so the guard \<^verbatim>\<open>if (!tbl) continue\<close> never fires.
\<close>

fun collect_sizes :: "env \<Rightarrow> alt list \<Rightarrow> string set \<Rightarrow> alt_size list \<Rightarrow> alt_size list" where
  "collect_sizes e [] seen altSizes = altSizes"
| "collect_sizes e (tbl # rest) seen altSizes =
     (let key = alt_key tbl
      in if key \<in> seen then collect_sizes e rest seen altSizes
         else (case alt_serialize e tbl of
                 Inr serialized \<Rightarrow>
                   collect_sizes e rest (insert key seen)
                     (altSizes @ [\<lparr>as_alt = tbl, as_size = length serialized, as_key = key\<rparr>])
               | Inl err \<Rightarrow> collect_sizes e rest (insert key seen) altSizes))"

text \<open>
  \<^verbatim>\<open>altSizes.sort((a, b) => a.size - b.size)\<close> is a stable sort on the sizes, as
  \<open>sort_key\<close> is; then \<^verbatim>\<open>altSizes.slice(0, 2).map(item => item.alt)\<close>.
\<close>

definition optimize_alts :: "env \<Rightarrow> alt list \<Rightarrow> alt list \<Rightarrow> alt list" where
  "optimize_alts e alts1 alts2 =
     (let allAlts = alts1 @ alts2;
          altSizes = collect_sizes e allAlts {} []
      in map as_alt (take 2 (sort_key as_size altSizes)))"

subsection \<open>Step 7: sign, send, confirm\<close>

text \<open>
  The inner \<^verbatim>\<open>try\<close> of \<^verbatim>\<open>checkAndTrade\<close> with its \<^verbatim>\<open>catch\<close>, which logs
  \<^verbatim>\<open>Error sending atomic transaction\<close> and returns \<^verbatim>\<open>false\<close>. A resolved \<^verbatim>\<open>confirmTransaction\<close> counts as confirmed; its value is not
  inspected.
\<close>

definition submit_and_confirm ::
  "env \<Rightarrow> versioned_tx \<Rightarrow> string \<Rightarrow> nat \<Rightarrow> nat \<Rightarrow> outcome \<times> event list"
where
  "submit_and_confirm e atomicTx blockhash lastValidBlockHeight t =
     (case sendTransactionWithSimulation e atomicTx MAX_RETRIES t of
        (Inl err, es) \<Rightarrow> (Failed (SendError err), es)
      | (Inr txid, es) \<Rightarrow>
          (case confirm_rpc e (t + length es) of
             Inl err \<Rightarrow>
               (Failed (SendError err),
                es @ [ConfirmTransaction txid blockhash lastValidBlockHeight])
           | Inr res \<Rightarrow>
               (Confirmed, es @ [ConfirmTransaction txid blockhash lastValidBlockHeight])))"

definition sign :: "config \<Rightarrow> env \<Rightarrow> versioned_tx \<Rightarrow> thrown + versioned_tx" where
  "sign cfg e tx =
     (case sign_throws e tx of
        Some err \<Rightarrow> Inl err
      | None \<Rightarrow> Inr (tx\<lparr>tx_signers := [wallet_publicKey cfg]\<rparr>))"

subsection \<open>Steps 4 to 7\<close>

definition assemble_and_submit ::
  "config \<Rightarrow> env \<Rightarrow> swap_payload \<Rightarrow> swap_payload \<Rightarrow> nat \<Rightarrow> (thrown + outcome) \<times> event list"
where
  "assemble_and_submit cfg e buy sell t =
     (let optimizedAlts = optimize_alts e (lookupTables buy) (lookupTables sell)
      in case blockhash_rpc e t of
           Inl err \<Rightarrow> (Inl err, [GetLatestBlockhash])
         | Inr (blockhash, lastValidBlockHeight) \<Rightarrow>
             (let allInstructions = instructions buy @ instructions sell
              in case createOptimizedTransaction cfg e allInstructions optimizedAlts blockhash of
                   None \<Rightarrow> (Inr (Failed NoValidTransaction), [GetLatestBlockhash])
                 | Some atomicTx \<Rightarrow>
                     (case sign cfg e atomicTx of
                        Inl err \<Rightarrow> (Inl err, [GetLatestBlockhash])
                      | Inr signedTx \<Rightarrow>
                          (case submit_and_confirm e signedTx blockhash lastValidBlockHeight (t + 1) of
                             (ok, es) \<Rightarrow> (Inr ok, GetLatestBlockhash # es)))))"

subsection \<open>The notification and step 3\<close>

text \<open>
  The object literal \<^verbatim>\<open>opportunity\<close>, field by field in the order written.
  \<^verbatim>\<open>Number(quoteSell.outAmount - INPUT_USDC) / 1e6\<close> is taken on the integer that
  \<^verbatim>\<open>BigInt(quoteSell.outAmount)\<close> gave.
\<close>

definition opportunity_of :: "config \<Rightarrow> int \<Rightarrow> js_object" where
  "opportunity_of cfg sellOut =
     [(''profit'', PNum (of_int (sellOut - INPUT_USDC cfg) / 1000000)),
      (''inputAmount'', PNum (of_int (INPUT_USDC cfg) / 1000000)),
      (''fees'', PNum (5 / 1000000)),
      (''privateKey'', PStr (PRIVATE_KEY_BASE58 cfg))]"

text \<open>Destructuring the \<^verbatim>\<open>undefined\<close> of a loop that ran out throws a TypeError.\<close>

definition undefined_error :: error where
  "undefined_error = Error ''Cannot read properties of undefined''"

definition execute_trade ::
  "config \<Rightarrow> env \<Rightarrow> quote_response \<Rightarrow> quote_response \<Rightarrow> int \<Rightarrow> nat \<Rightarrow> (thrown + outcome) \<times> event list"
where
  "execute_trade cfg e quoteBuy quoteSell sellOut t =
     (let es0 = BotOpportunity (opportunity_of cfg sellOut)
      in case getSwapPayload cfg e quoteBuy MAX_RETRIES (t + length es0) of
           (Inl err, es1) \<Rightarrow> (Inl (Object err), es0 @ es1)
         | (Inr None, es1) \<Rightarrow> (Inl (Object undefined_error), es0 @ es1)
         | (Inr (Some buy), es1) \<Rightarrow>
             (case getSwapPayload cfg e quoteSell MAX_RETRIES (t + length es0 + length es1) of
                (Inl err, es2) \<Rightarrow> (Inl (Object err), es0 @ es1 @ es2)
              | (Inr None, es2) \<Rightarrow> (Inl (Object undefined_error), es0 @ es1 @ es2)
              | (Inr (Some sell), es2) \<Rightarrow>
                  (case assemble_and_submit cfg e buy sell
                          (t + length es0 + length es1 + length es2) of
                     (r, es3) \<Rightarrow> (r, es0 @ es1 @ es2 @ es3))))"

subsection \<open>Steps 1 and 2, and the function\<close>

definition required :: "config \<Rightarrow> int" where
  "required cfg = INPUT_USDC cfg + MIN_PROFIT_USDC cfg"

text \<open>Step 2 on a sell quote: the comparison on BigInts, then the rest of the cycle.\<close>

definition profit_check ::
  "config \<Rightarrow> env \<Rightarrow> quote_response \<Rightarrow> quote_response \<Rightarrow> nat \<Rightarrow> (thrown + outcome) \<times> event list"
where
  "profit_check cfg e quoteBuy quoteSell t =
     (case BigInt (outAmount quoteSell) of
        Inl err \<Rightarrow> (Inl (Object err), [])
      | Inr sellOut \<Rightarrow>
          if sellOut < required cfg then (Inr (Failed InsufficientProfit), [])
          else execute_trade cfg e quoteBuy quoteSell sellOut t)"

text \<open>The outer \<^verbatim>\<open>try\<close> block of \<^verbatim>\<open>checkAndTrade\<close>.\<close>

definition checkAndTrade_try :: "config \<Rightarrow> env \<Rightarrow> nat \<Rightarrow> (thrown + outcome) \<times> event list" where
  "checkAndTrade_try cfg e t =
     (case getQuote e USDC_MINT WSOL_MINT (JNum (INPUT_USDC cfg)) MAX_RETRIES t of
        (Inl err, es1) \<Rightarrow> (Inl (Object err), es1)
      | (Inr None, es1) \<Rightarrow> (Inl (Object undefined_error), es1)
      | (Inr (Some quoteBuy), es1) \<Rightarrow>
          (case getQuote e WSOL_MINT USDC_MINT (outAmount quoteBuy) MAX_RETRIES (t + length es1) of
             (Inl err, es2) \<Rightarrow> (Inl (Object err), es1 @ es2)
           | (Inr None, es2) \<Rightarrow> (Inl (Object undefined_error), es1 @ es2)
           | (Inr (Some quoteSell), es2) \<Rightarrow>
               (case profit_check cfg e quoteBuy quoteSell (t + length es1 + length es2) of
                  (r, es3) \<Rightarrow> (r, es1 @ es2 @ es3))))"

text \<open>
  \<^verbatim>\<open>checkAndTrade\<close>: the outer \<^verbatim>\<open>catch\<close> logs \<^verbatim>\<open>err.message\<close> and returns \<^verbatim>\<open>false\<close>.
  On a nullish \<^verbatim>\<open>err\<close> the read of the message throws out of the handler, and the
  promise the function returns is rejected with that TypeError: the \<open>Inl\<close> of the
  result.
\<close>

definition message_error :: error where
  "message_error = Error ''Cannot read properties of undefined (reading message)''"

definition checkAndTrade :: "config \<Rightarrow> env \<Rightarrow> nat \<Rightarrow> (error + outcome) \<times> event list" where
  "checkAndTrade cfg e t =
     (case checkAndTrade_try cfg e t of
        (Inl (Object err), es) \<Rightarrow> (Inr (Failed (CycleError err)), es)
      | (Inl Nullish, es) \<Rightarrow> (Inl message_error, es)
      | (Inr ok, es) \<Rightarrow> (Inr ok, es))"

section \<open>Main loop\<close>

definition maxConsecutiveErrors :: nat where
  "maxConsecutiveErrors = 5"

record loop_state =
  consecutiveErrors :: nat
  trace :: "event list"

text \<open>
  One pass through the body of \<^verbatim>\<open>while (true)\<close>. The \<^verbatim>\<open>catch\<close> of the loop is the
  \<open>Inl\<close> branch; what it catches is an error object, so its own read of the message
  does not throw. The inter-cycle \<^verbatim>\<open>sleep(5000)\<close> follows in every case.
\<close>

definition loop_iteration :: "config \<Rightarrow> env \<Rightarrow> loop_state \<Rightarrow> loop_state" where
  "loop_iteration cfg e s =
     (case checkAndTrade cfg e (length (trace s)) of
        (Inr result, es) \<Rightarrow>
          \<lparr>consecutiveErrors = (if succeeded result then 0 else consecutiveErrors s + 1),
           trace = trace s @ es @ [Sleep 5000]\<rparr>
      | (Inl err, es) \<Rightarrow>
          (let c = consecutiveErrors s + 1
           in if c \<ge> maxConsecutiveErrors
              then \<lparr>consecutiveErrors = 0, trace = trace s @ es @ [Sleep 30000, Sleep 5000]\<rparr>
              else \<lparr>consecutiveErrors = c, trace = trace s @ es @ [Sleep 5000]\<rparr>))"

text \<open>The first \<open>n\<close> passes of the loop, which itself never ends.\<close>

fun main_loop :: "config \<Rightarrow> env \<Rightarrow> nat \<Rightarrow> loop_state \<Rightarrow> loop_state" where
  "main_loop cfg e 0 s = s"
| "main_loop cfg e (Suc n) s = main_loop cfg e n (loop_iteration cfg e s)"

definition initial_state :: loop_state where
  "initial_state = \<lparr>consecutiveErrors = 0, trace = []\<rparr>"

section \<open>Reference definitions\<close>

text \<open>
  The events of a call that fails \<open>j - i\<close> times from iteration \<open>i\<close> on and is then
  made once more: each failed call is followed by a pause of 1000 ms times the
  one-based number of the attempt.
\<close>

definition retry_events :: "event \<Rightarrow> nat \<Rightarrow> nat \<Rightarrow> event list" where
  "retry_events call i j = concat (map (\<lambda>k. [call, Sleep (1000 * (k + 1))]) [i..<j]) @ [call]"

text \<open>
  A strategy of the assembler fits when the library compiles the message with the
  given tables and the transaction serialises to at most 1232 bytes.
\<close>

definition fits :: "config \<Rightarrow> env \<Rightarrow> instruction list \<Rightarrow> alt list \<Rightarrow> string \<Rightarrow> bool" where
  "fits cfg e ins tables blockhash =
     (compileToV0Message e (tx_msg (compile_tx cfg tables ins blockhash)) tables = None
      \<and> (case tx_serialize e (compile_tx cfg tables ins blockhash) of
            Inr serialized \<Rightarrow> length serialized \<le> 1232
          | Inl err \<Rightarrow> False))"

subsection \<open>Properties of event sequences\<close>

text \<open>
  In the events \<open>es\<close> of a run that starts at time \<open>t\<close>: every broadcast comes
  directly after a simulation of the same transaction that succeeded.
\<close>

definition broadcast_guarded :: "env \<Rightarrow> nat \<Rightarrow> event list \<Rightarrow> bool" where
  "broadcast_guarded e t es =
     (\<forall>pre post tx'. es = pre @ SendTransaction tx' # post
        \<longrightarrow> (\<exists>pre'. pre = pre' @ [Simulate tx'] \<and> simulateTransaction e (t + length pre')))"

text \<open>
  A failed simulation that is not the last event is followed by a pause and a new
  simulation of the same transaction.
\<close>

definition failure_resimulated :: "env \<Rightarrow> nat \<Rightarrow> event list \<Rightarrow> bool" where
  "failure_resimulated e t es =
     (\<forall>pre post tx'. es = pre @ Simulate tx' # post \<and> \<not> simulateTransaction e (t + length pre)
          \<and> post \<noteq> []
        \<longrightarrow> (\<exists>d post'. post = Sleep d # Simulate tx' # post'))"

fun is_confirm :: "event \<Rightarrow> bool" where
  "is_confirm (ConfirmTransaction txid blockhash height) = True"
| "is_confirm ev = False"

fun is_build_call :: "event \<Rightarrow> bool" where
  "is_build_call (FetchSwapInstructions req) = True"
| "is_build_call ev = False"

text \<open>
  A result with its events, for a run that starts at time \<open>t\<close>: either there is no
  confirmation among the events and the result is not \<open>Confirmed\<close>, or the confirmation
  is the last event, it comes directly after a broadcast, and the result is decided by
  the answer to it.
\<close>

definition confirm_last :: "env \<Rightarrow> nat \<Rightarrow> ('a + outcome) \<times> event list \<Rightarrow> bool" where
  "confirm_last e t res =
     ((list_all (\<lambda>ev. \<not> is_confirm ev) (snd res) \<and> fst res \<noteq> Inr Confirmed)
      \<or> (\<exists>xs tx txid blockhash height.
            snd res = xs @ [SendTransaction tx, ConfirmTransaction txid blockhash height]
            \<and> list_all (\<lambda>ev. \<not> is_confirm ev) xs
            \<and> fst res = (case confirm_rpc e (t + length xs + 1) of
                            Inl err \<Rightarrow> Inr (Failed (SendError err))
                          | Inr r \<Rightarrow> Inr Confirmed)))"

subsection \<open>Lookup tables\<close>

text \<open>The library object for a table of the response, and whether the loop keeps it.\<close>

definition alt_of_blob :: "env \<Rightarrow> alt_blob \<Rightarrow> alt" where
  "alt_of_blob e tbl = \<lparr>alt_key = accountKey tbl, alt_raw = base64_decode e (blob_data tbl)\<rparr>"

definition blob_kept :: "env \<Rightarrow> alt_blob \<Rightarrow> bool" where
  "blob_kept e tbl =
     (length (base64_decode e (blob_data tbl)) \<le> 1000
      \<and> \<not> pubkey_invalid e (accountKey tbl)
      \<and> \<not> alt_deserialize_throws e (accountKey tbl) (base64_decode e (blob_data tbl)))"

text \<open>The warning that examining a table prints: none for a table that is kept.\<close>

definition warning_of :: "env \<Rightarrow> alt_blob \<Rightarrow> alt_warning option" where
  "warning_of e tbl =
     (let raw = base64_decode e (blob_data tbl)
      in if length raw > 1000 then Some (TooLarge (accountKey tbl) (length raw))
         else if pubkey_invalid e (accountKey tbl) \<or> alt_deserialize_throws e (accountKey tbl) raw
           then Some (NotDeserialized (accountKey tbl))
         else None)"

text \<open>
  The selection as the specification words it: the tables are examined in the order
  received, an oversized or undecodable one is discarded, the others are kept, and the
  examination stops only once two are kept or the list is exhausted. The tables
  attempted are those met before the second one is kept, \<open>n\<close> counting the tables kept
  so far; the warnings are those of the tables attempted.
\<close>

definition kept_until_two :: "env \<Rightarrow> alt_blob list \<Rightarrow> alt list" where
  "kept_until_two e blobs = take 2 (map (alt_of_blob e) (filter (blob_kept e) blobs))"

fun attempted_until_two :: "env \<Rightarrow> alt_blob list \<Rightarrow> nat \<Rightarrow> alt_blob list" where
  "attempted_until_two e [] n = []"
| "attempted_until_two e (tbl # rest) n =
     (if n \<ge> 2 then []
      else tbl # attempted_until_two e rest (if blob_kept e tbl then n + 1 else n))"

definition warnings_until_two :: "env \<Rightarrow> alt_blob list \<Rightarrow> alt_warning list" where
  "warnings_until_two e blobs = List.map_filter (warning_of e) (attempted_until_two e blobs 0)"

text \<open>
  The optimizer as the specification words it: merge, keep the first table of each
  key, drop the tables that do not serialise, sort by serialised length, keep two.
\<close>

function first_by_key :: "alt list \<Rightarrow> alt list" where
  "first_by_key [] = []"
| "first_by_key (x # xs) = x # first_by_key (filter (\<lambda>y. alt_key y \<noteq> alt_key x) xs)"
  by pat_completeness auto
termination
  by (relation "measure length") (auto simp: less_Suc_eq_le)

definition with_size :: "env \<Rightarrow> alt \<Rightarrow> alt_size option" where
  "with_size e tbl =
     (case alt_serialize e tbl of
        Inr serialized \<Rightarrow> Some \<lparr>as_alt = tbl, as_size = length serialized, as_key = alt_key tbl\<rparr>
      | Inl err \<Rightarrow> None)"

definition smallest_two :: "env \<Rightarrow> alt list \<Rightarrow> alt list \<Rightarrow> alt list" where
  "smallest_two e alts1 alts2 =
     map as_alt (take 2 (sort_key as_size
       (List.map_filter (with_size e) (first_by_key (alts1 @ alts2)))))"

definition serializes :: "env \<Rightarrow> alt \<Rightarrow> bool" where
  "serializes e tbl = (case alt_serialize e tbl of Inr serialized \<Rightarrow> True | Inl err \<Rightarrow> False)"

definition serialized_length :: "env \<Rightarrow> alt \<Rightarrow> nat" where
  "serialized_length e tbl =
     (case alt_serialize e tbl of Inr serialized \<Rightarrow> length serialized | Inl err \<Rightarrow> 0)"

text \<open>The merged tables that survive: first of their key, and serialisable.\<close>

definition survivors :: "env \<Rightarrow> alt list \<Rightarrow> alt list \<Rightarrow> alt list" where
  "survivors e alts1 alts2 = filter (serializes e) (first_by_key (alts1 @ alts2))"

section \<open>Sample data\<close>

text \<open>A quote with the given output amount, and a table of \<open>n\<close> zero bytes.\<close>

definition sample_quote :: "string \<Rightarrow> quote_response" where
  "sample_quote s = \<lparr>outAmount = JStr s, routePlan = ''direct''\<rparr>"

definition sample_alt :: "string \<Rightarrow> nat \<Rightarrow> alt" where
  "sample_alt k n = \<lparr>alt_key = k, alt_raw = replicate n 0\<rparr>"

text \<open>A table of \<open>n\<close> zero bytes, \<open>n\<close> a multiple of 3, as the instruction service sends it.\<close>

definition sample_blob :: "string \<Rightarrow> nat \<Rightarrow> alt_blob" where
  "sample_blob k n = \<lparr>accountKey = k, blob_data = replicate (n div 3 * 4) (CHR ''A'')\<rparr>"

text \<open>The instruction built from the answer of the instruction service below.\<close>

definition sample_ix :: instruction where
  "sample_ix = \<lparr>ix_programId = ''JUP6'', ix_keys = [], ix_data = replicate 3 0\<rparr>"

text \<open>
  Every service answers; the buy quote is 60000 units and the sell quote 10001300.
  The decoder is right on the base64 of zero bytes, which is a run of the letter A.
\<close>

definition healthy_env :: env where
  "healthy_env =
     \<lparr>quote_api = (\<lambda>t. Inr (if t = 0 then sample_quote ''60000'' else sample_quote ''10001300'')),
      swap_api = (\<lambda>t. Inr \<lparr>swapInstruction =
                              Some \<lparr>si_programId = ''JUP6'', si_accounts = [], si_data = ''AAAA''\<rparr>,
                            addressLookupTableAccounts = None\<rparr>),
      blockhash_rpc = (\<lambda>t. Inr (''BLOCKHASH'', 250000000)),
      simulate_rpc = (\<lambda>t. Inr None),
      send_rpc = (\<lambda>t. Inr ''SIGNATURE''),
      confirm_rpc = (\<lambda>t. Inr None),
      pubkey_invalid = (\<lambda>s. s = []),
      base64_decode = (\<lambda>s. replicate (length s div 4 * 3) 0),
      alt_deserialize_throws = (\<lambda>k raw. False),
      alt_serialize = (\<lambda>a. Inr (alt_raw a)),
      compileToV0Message = (\<lambda>m tables. None),
      tx_serialize = (\<lambda>tx. Inr (replicate 900 0)),
      sign_throws = (\<lambda>tx. None)\<rparr>"

text \<open>The configuration of the source with a key in the place of its placeholder.\<close>

definition keyed_config :: "string \<Rightarrow> config" where
  "keyed_config key = source_config\<lparr>PRIVATE_KEY_BASE58 := key\<rparr>"

text \<open>The pricing service refuses every connection.\<close>

definition down_env :: env where
  "down_env = healthy_env\<lparr>quote_api := (\<lambda>t. Inl (Error ''ECONNREFUSED''))\<rparr>"


text \<open>The pricing service answers without an output amount.\<close>

definition no_amount_env :: env where
  "no_amount_env =
     healthy_env\<lparr>quote_api := (\<lambda>t. Inr \<lparr>outAmount = JUndefined, routePlan = ''direct''\<rparr>)\<rparr>"

text \<open>The sell quote is 10000500 units: 700 short of the threshold.\<close>

definition thin_env :: env where
  "thin_env =
     healthy_env\<lparr>quote_api :=
       (\<lambda>t. Inr (if t = 0 then sample_quote ''60000'' else sample_quote ''10000500''))\<rparr>"

text \<open>A transaction takes 1300 bytes with lookup tables and 1200 without.\<close>

definition tight_env :: env where
  "tight_env =
     healthy_env\<lparr>tx_serialize :=
       (\<lambda>tx. Inr (replicate (if tx_lookupTables tx = [] then 1200 else 1300) 0))\<rparr>"

text \<open>The first simulation fails on the chain, the later ones pass.\<close>

definition flaky_sim_env :: env where
  "flaky_sim_env =
     healthy_env\<lparr>simulate_rpc :=
       (\<lambda>t. if t = 0 then Inr (Some ''InsufficientFundsForFee'') else Inr None)\<rparr>"

text \<open>Every simulation fails.\<close>

definition failing_sim_env :: env where
  "failing_sim_env = healthy_env\<lparr>simulate_rpc := (\<lambda>t. Inr (Some ''InsufficientFundsForFee''))\<rparr>"

text \<open>The confirmation of a broadcast transaction times out.\<close>

definition unconfirmed_env :: env where
  "unconfirmed_env = healthy_env\<lparr>confirm_rpc := (\<lambda>t. Inl (Error ''block height exceeded''))\<rparr>"

text \<open>A response with an oversized table followed by two small ones.\<close>

definition oversized_first :: swap_response where
  "oversized_first =
     \<lparr>swapInstruction = Some \<lparr>si_programId = ''JUP6'', si_accounts = [], si_data = ''AAAA''\<rparr>,
      addressLookupTableAccounts =
        Some [sample_blob ''BIG'' 1002, sample_blob ''T1'' 60, sample_blob ''T2'' 90]\<rparr>"

text \<open>The instruction service answers with that response.\<close>

definition oversized_env :: env where
  "oversized_env = healthy_env\<lparr>swap_api := (\<lambda>t. Inr oversized_first)\<rparr>"

text \<open>
  The library decodes no table: every call of \<^verbatim>\<open>AddressLookupTableAccount.deserialize\<close>
  with a key and the bytes throws.
\<close>

definition refusing_env :: env where
  "refusing_env = healthy_env\<lparr>alt_deserialize_throws := (\<lambda>k raw. True)\<rparr>"

text \<open>That library, and the instruction service answering with the response above.\<close>

definition refused_env :: env where
  "refused_env = refusing_env\<lparr>swap_api := (\<lambda>t. Inr oversized_first)\<rparr>"

text \<open>The table with key \<^verbatim>\<open>BAD\<close> cannot be serialised.\<close>

definition bad_table_env :: env where
  "bad_table_env =
     healthy_env\<lparr>alt_serialize :=
       (\<lambda>a. if alt_key a = ''BAD'' then Inl (Error ''serialize failed'') else Inr (alt_raw a))\<rparr>"

text \<open>A signed transaction without instructions.\<close>

definition sample_tx :: versioned_tx where
  "sample_tx = (compile_tx source_config [] [] ''BLOCKHASH'')\<lparr>tx_signers := [''WALLET'']\<rparr>"

text \<open>The transaction of the sample cycles, before and after signing.\<close>

definition cycle_tx :: versioned_tx where
  "cycle_tx = compile_tx source_config [] [sample_ix, sample_ix] ''BLOCKHASH''"

definition signed_cycle_tx :: versioned_tx where
  "signed_cycle_tx = cycle_tx\<lparr>tx_signers := [''WALLET'']\<rparr>"

section \<open>Retry loops\<close>

declare getQuote_from.simps [simp del]
declare getSwapPayload_from.simps [simp del]
declare sendTransactionWithSimulation_from.simps [simp del]

lemma retry_events_step:
  "i < j \<Longrightarrow> retry_events call i j = call # Sleep (1000 * (i + 1)) # retry_events call (Suc i) j"
  by (simp add: retry_events_def upt_conv_Cons)

lemma getQuote_from_unfold:
  "i < retries \<Longrightarrow>
   getQuote_from e req retries i t =
     (case quote_attempt e t of
        Inr res \<Rightarrow> (Inr (Some res), [FetchQuote req])
      | Inl err \<Rightarrow>
          if i = retries - 1 then (Inl err, [FetchQuote req])
          else (fst (getQuote_from e req retries (i + 1) (t + 2)),
                FetchQuote req # Sleep (1000 * (i + 1))
                  # snd (getQuote_from e req retries (i + 1) (t + 2))))"
  by (subst getQuote_from.simps) (simp add: case_prod_beta split: sum.splits)

lemma getQuote_from_shape:
  "i < retries \<Longrightarrow>
   \<exists>j. i \<le> j \<and> j < retries
     \<and> snd (getQuote_from e req retries i t) = retry_events (FetchQuote req) i j
     \<and> (\<forall>k. i \<le> k \<and> k < j \<longrightarrow> isl (quote_attempt e (t + 2 * (k - i))))
     \<and> (case quote_attempt e (t + 2 * (j - i)) of
           Inr res \<Rightarrow> fst (getQuote_from e req retries i t) = Inr (Some res)
         | Inl err \<Rightarrow> j = retries - 1 \<and> fst (getQuote_from e req retries i t) = Inl err)"
proof (induction e req retries i t rule: getQuote_from.induct)
  case (1 e req retries i t)
  show ?case
  proof (cases "quote_attempt e t")
    case (Inr res)
    with "1.prems" show ?thesis
      by (intro exI[of _ i]) (simp add: retry_events_def getQuote_from_unfold)
  next
    case (Inl err)
    show ?thesis
    proof (cases "i = retries - 1")
      case True
      with Inl "1.prems" show ?thesis
        by (intro exI[of _ i]) (auto simp: retry_events_def getQuote_from_unfold)
    next
      case False
      with "1.prems" have lt: "i + 1 < retries" by simp
      from "1.IH"[OF "1.prems" Inl False lt] obtain j where j:
        "i + 1 \<le> j" "j < retries"
        "snd (getQuote_from e req retries (i + 1) (t + 2)) = retry_events (FetchQuote req) (i + 1) j"
        "\<forall>k. i + 1 \<le> k \<and> k < j \<longrightarrow> isl (quote_attempt e (t + 2 + 2 * (k - (i + 1))))"
        "case quote_attempt e (t + 2 + 2 * (j - (i + 1))) of
           Inr res \<Rightarrow> fst (getQuote_from e req retries (i + 1) (t + 2)) = Inr (Some res)
         | Inl err \<Rightarrow> j = retries - 1 \<and> fst (getQuote_from e req retries (i + 1) (t + 2)) = Inl err"
        by auto
      have time: "\<And>k. i + 1 \<le> k \<Longrightarrow> t + 2 + 2 * (k - (i + 1)) = t + 2 * (k - i)"
        by simp
      have unfold: "getQuote_from e req retries i t =
          (fst (getQuote_from e req retries (i + 1) (t + 2)),
           FetchQuote req # Sleep (1000 * (i + 1)) # snd (getQuote_from e req retries (i + 1) (t + 2)))"
        using "1.prems" Inl False
        by (simp add: case_prod_beta getQuote_from_unfold)
      have fails: "\<forall>k. i \<le> k \<and> k < j \<longrightarrow> isl (quote_attempt e (t + 2 * (k - i)))"
      proof (intro allI impI)
        fix k assume k: "i \<le> k \<and> k < j"
        show "isl (quote_attempt e (t + 2 * (k - i)))"
        proof (cases "k = i")
          case True
          then show ?thesis using Inl by simp
        next
          case False
          with k have k': "i + 1 \<le> k \<and> k < j" by simp
          with j(4) have "isl (quote_attempt e (t + 2 + 2 * (k - (i + 1))))" by blast
          with k' time[of k] show ?thesis by (simp only:)
        qed
      qed
      have last: "case quote_attempt e (t + 2 * (j - i)) of
           Inr res \<Rightarrow> fst (getQuote_from e req retries (i + 1) (t + 2)) = Inr (Some res)
         | Inl err \<Rightarrow> j = retries - 1 \<and> fst (getQuote_from e req retries (i + 1) (t + 2)) = Inl err"
        using j(5) time[OF j(1)] by (simp only:)
      have ev: "retry_events (FetchQuote req) i j =
          FetchQuote req # Sleep (1000 * (i + 1)) # retry_events (FetchQuote req) (i + 1) j"
        using j(1) by (simp add: retry_events_step)
      show ?thesis
        apply (intro exI[of _ j])
        apply (simp only: unfold fst_conv snd_conv ev j(3))
        using j(1,2) fails last by simp
    qed
  qed
qed

lemma count_retry_events:
  "i \<le> j \<Longrightarrow> (\<And>d. call \<noteq> Sleep d) \<Longrightarrow> count_list (retry_events call i j) call = j - i + 1"
proof (induction "j - i" arbitrary: i)
  case 0
  then show ?case by (simp add: retry_events_def)
next
  case (Suc n)
  then have lt: "i < j" by simp
  have ne: "Sleep (1000 * (i + 1)) \<noteq> call" using Suc.prems(2) by metis
  have "count_list (retry_events call (Suc i) j) call = j - Suc i + 1"
    using Suc.hyps(1)[of "Suc i"] Suc.hyps(2) Suc.prems lt by simp
  with lt ne show ?case by (simp add: retry_events_step[OF lt])
qed

lemma set_retry_events:
  "set (retry_events call i j) \<subseteq> insert call (range Sleep)"
  by (auto simp: retry_events_def)

lemma getQuote_from_zero: "getQuote_from e req 0 i t = (Inr None, [])"
  by (simp add: getQuote_from.simps[of e req 0 i t])

text \<open>
  Claim C7. For every retry count, \<^verbatim>\<open>getQuote\<close> asks the pricing service at most
  \<open>retries\<close> times. With a positive retry count its events are \<open>j\<close> failed requests,
  the \<open>k\<close>-th of them followed by a pause of \<open>1000 * k\<close> ms, and one more request,
  for some \<open>j < retries\<close>: if that last request succeeds its response is returned, and
  if it fails it was request number \<open>retries\<close> and its error is thrown to the caller
  with no further retry. A response without an output amount fails the attempt.
\<close>

theorem getQuote_retry_policy:
  "count_list (snd (getQuote e a b amt retries t)) (FetchQuote (quote_url a b amt)) \<le> retries
   \<and> (0 < retries \<longrightarrow>
        (\<exists>j<retries.
            snd (getQuote e a b amt retries t) = retry_events (FetchQuote (quote_url a b amt)) 0 j
          \<and> (\<forall>k<j. isl (quote_attempt e (t + 2 * k)))
          \<and> (case quote_attempt e (t + 2 * j) of
                Inr res \<Rightarrow> fst (getQuote e a b amt retries t) = Inr (Some res)
              | Inl err \<Rightarrow> j = retries - 1 \<and> fst (getQuote e a b amt retries t) = Inl err)))
   \<and> (\<forall>u res. quote_api e u = Inr res \<and> outAmount res = JUndefined
         \<longrightarrow> quote_attempt e u = Inl (Error ''Failed to get quote''))"
proof (intro conjI)
  let ?req = "quote_url a b amt"
  have shape: "0 < retries \<longrightarrow>
        (\<exists>j<retries.
            snd (getQuote e a b amt retries t) = retry_events (FetchQuote ?req) 0 j
          \<and> (\<forall>k<j. isl (quote_attempt e (t + 2 * k)))
          \<and> (case quote_attempt e (t + 2 * j) of
                Inr res \<Rightarrow> fst (getQuote e a b amt retries t) = Inr (Some res)
              | Inl err \<Rightarrow> j = retries - 1 \<and> fst (getQuote e a b amt retries t) = Inl err))"
  proof
    assume "0 < retries"
    from getQuote_from_shape[OF this, of e ?req t] show "\<exists>j<retries.
            snd (getQuote e a b amt retries t) = retry_events (FetchQuote ?req) 0 j
          \<and> (\<forall>k<j. isl (quote_attempt e (t + 2 * k)))
          \<and> (case quote_attempt e (t + 2 * j) of
                Inr res \<Rightarrow> fst (getQuote e a b amt retries t) = Inr (Some res)
              | Inl err \<Rightarrow> j = retries - 1 \<and> fst (getQuote e a b amt retries t) = Inl err)"
      unfolding getQuote_def by auto
  qed
  then show "0 < retries \<longrightarrow>
        (\<exists>j<retries.
            snd (getQuote e a b amt retries t) = retry_events (FetchQuote ?req) 0 j
          \<and> (\<forall>k<j. isl (quote_attempt e (t + 2 * k)))
          \<and> (case quote_attempt e (t + 2 * j) of
                Inr res \<Rightarrow> fst (getQuote e a b amt retries t) = Inr (Some res)
              | Inl err \<Rightarrow> j = retries - 1 \<and> fst (getQuote e a b amt retries t) = Inl err))" .
  show "count_list (snd (getQuote e a b amt retries t)) (FetchQuote ?req) \<le> retries"
  proof (cases "0 < retries")
    case False
    then show ?thesis by (simp add: getQuote_def getQuote_from_zero)
  next
    case True
    with shape obtain j where "j < retries"
      "snd (getQuote e a b amt retries t) = retry_events (FetchQuote ?req) 0 j" by blast
    then show ?thesis by (simp add: count_retry_events)
  qed
  show "\<forall>u res. quote_api e u = Inr res \<and> outAmount res = JUndefined
         \<longrightarrow> quote_attempt e u = Inl (Error ''Failed to get quote'')"
    by (simp add: quote_attempt_def)
qed

text \<open>
  With the pricing service down and three attempts allowed, there are exactly three
  requests with pauses of 1000 and 2000 ms and the error of the last one comes back;
  a response without an output amount is a failed attempt.
\<close>

theorem getQuote_retry_policy_witness:
  "0 < (3::nat)
   \<and> getQuote down_env USDC_MINT WSOL_MINT (JNum 10000000) 3 0
       = (Inl (Error ''ECONNREFUSED''),
          [FetchQuote (quote_url USDC_MINT WSOL_MINT (JNum 10000000)), Sleep 1000,
           FetchQuote (quote_url USDC_MINT WSOL_MINT (JNum 10000000)), Sleep 2000,
           FetchQuote (quote_url USDC_MINT WSOL_MINT (JNum 10000000))])
   \<and> quote_api no_amount_env 0 = Inr \<lparr>outAmount = JUndefined, routePlan = ''direct''\<rparr>
   \<and> quote_attempt no_amount_env 0 = Inl (Error ''Failed to get quote'')"
proof -
  have down: "\<And>u. quote_attempt down_env u = Inl (Error ''ECONNREFUSED'')"
    by (simp add: quote_attempt_def down_env_def healthy_env_def)
  have api: "quote_api no_amount_env 0 = Inr \<lparr>outAmount = JUndefined, routePlan = ''direct''\<rparr>"
    by (simp add: no_amount_env_def healthy_env_def)
  from getQuote_retry_policy[of down_env USDC_MINT WSOL_MINT "JNum 10000000" 3 0]
  obtain j where j: "j < 3"
      "snd (getQuote down_env USDC_MINT WSOL_MINT (JNum 10000000) 3 0)
         = retry_events (FetchQuote (quote_url USDC_MINT WSOL_MINT (JNum 10000000))) 0 j"
      "j = 3 - 1 \<and> fst (getQuote down_env USDC_MINT WSOL_MINT (JNum 10000000) 3 0)
         = Inl (Error ''ECONNREFUSED'')"
    by (auto simp: down)
  have "[0..<2] = [0, Suc 0]" by (simp add: upt_conv_Cons)
  with j have "getQuote down_env USDC_MINT WSOL_MINT (JNum 10000000) 3 0
       = (Inl (Error ''ECONNREFUSED''),
          [FetchQuote (quote_url USDC_MINT WSOL_MINT (JNum 10000000)), Sleep 1000,
           FetchQuote (quote_url USDC_MINT WSOL_MINT (JNum 10000000)), Sleep 2000,
           FetchQuote (quote_url USDC_MINT WSOL_MINT (JNum 10000000))])"
    by (simp add: retry_events_def prod_eq_iff)
  moreover from getQuote_retry_policy[of no_amount_env USDC_MINT WSOL_MINT "JNum 10000000" 3 0] api
  have "quote_attempt no_amount_env 0 = Inl (Error ''Failed to get quote'')"
    by auto
  ultimately show ?thesis using api by simp
qed

section \<open>The transaction assembler\<close>

lemma try_strategy_fits:
  "try_strategy cfg e ins tables bh =
     (if fits cfg e ins tables bh then Some (compile_tx cfg tables ins bh) else None)"
  by (auto simp: try_strategy_def fits_def validateAndOptimizeTransaction_def MAX_TX_SIZE_def Let_def
           split: option.splits sum.splits error.splits)

text \<open>
  Claim C3. Whatever the instructions, tables and blockhash, the transaction that
  \<^verbatim>\<open>createOptimizedTransaction\<close> returns serialises to at most 1232 bytes. When there is
  at least one table and the compilation with the tables fits, that transaction is
  returned; when there is no table or the compilation with tables does not fit, and the
  compilation without tables fits, the transaction without tables is returned; the
  result is \<^verbatim>\<open>null\<close> exactly when neither strategy fits.
\<close>

theorem assembler_size_ceiling:
  "(\<forall>tx. createOptimizedTransaction cfg e ins tables bh = Some tx
       \<longrightarrow> (\<exists>serialized. tx_serialize e tx = Inr serialized \<and> length serialized \<le> 1232))
   \<and> (tables \<noteq> [] \<and> fits cfg e ins tables bh
       \<longrightarrow> createOptimizedTransaction cfg e ins tables bh = Some (compile_tx cfg tables ins bh))
   \<and> ((tables = [] \<or> \<not> fits cfg e ins tables bh) \<and> fits cfg e ins [] bh
       \<longrightarrow> createOptimizedTransaction cfg e ins tables bh = Some (compile_tx cfg [] ins bh))
   \<and> (createOptimizedTransaction cfg e ins tables bh = None
       \<longleftrightarrow> \<not> fits cfg e ins tables bh \<and> \<not> fits cfg e ins [] bh)"
  by (auto simp: createOptimizedTransaction_def try_strategy_fits fits_def split: sum.splits)

text \<open>
  An instruction set that takes 1300 bytes with a table and 1200 without comes back
  as the transaction without tables; one that fits with its table comes back with it.
\<close>

theorem assembler_size_ceiling_witness:
  "[sample_alt ''T1'' 300] \<noteq> []
   \<and> \<not> fits source_config tight_env [] [sample_alt ''T1'' 300] ''BLOCKHASH''
   \<and> fits source_config tight_env [] [] ''BLOCKHASH''
   \<and> createOptimizedTransaction source_config tight_env [] [sample_alt ''T1'' 300] ''BLOCKHASH''
       = Some (compile_tx source_config [] [] ''BLOCKHASH'')
   \<and> tx_serialize tight_env (compile_tx source_config [] [] ''BLOCKHASH'') = Inr (replicate 1200 0)
   \<and> fits source_config healthy_env [] [sample_alt ''T1'' 300] ''BLOCKHASH''
   \<and> createOptimizedTransaction source_config healthy_env [] [sample_alt ''T1'' 300] ''BLOCKHASH''
       = Some (compile_tx source_config [sample_alt ''T1'' 300] [] ''BLOCKHASH'')"
proof -
  have a: "\<not> fits source_config tight_env [] [sample_alt ''T1'' 300] ''BLOCKHASH''"
    by (simp add: fits_def tight_env_def healthy_env_def compile_tx_def sample_alt_def)
  have b: "fits source_config tight_env [] [] ''BLOCKHASH''"
    by (simp add: fits_def tight_env_def healthy_env_def compile_tx_def)
  have c: "fits source_config healthy_env [] [sample_alt ''T1'' 300] ''BLOCKHASH''"
    by (simp add: fits_def healthy_env_def compile_tx_def)
  have d: "tx_serialize tight_env (compile_tx source_config [] [] ''BLOCKHASH'') = Inr (replicate 1200 0)"
    by (simp add: tight_env_def healthy_env_def compile_tx_def)
  from assembler_size_ceiling[of source_config tight_env "[]" "[sample_alt ''T1'' 300]" "''BLOCKHASH''"]
       assembler_size_ceiling[of source_config healthy_env "[]" "[sample_alt ''T1'' 300]" "''BLOCKHASH''"]
       a b c d
  show ?thesis by simp
qed

section \<open>The submission pipeline\<close>

lemma send_loop_unfold:
  "i < retries \<Longrightarrow>
   sendTransactionWithSimulation_from e tx retries i t =
     (if \<not> simulateTransaction e t then
        (if i = retries - 1
         then (Inl (Error ''Simulation failed on all attempts''), [Simulate tx])
         else (fst (sendTransactionWithSimulation_from e tx retries (i + 1) (t + 2)),
               Simulate tx # Sleep (1000 * (i + 1))
                 # snd (sendTransactionWithSimulation_from e tx retries (i + 1) (t + 2))))
      else (case send_rpc e (t + 1) of
              Inr txid \<Rightarrow> (Inr (Some txid), [Simulate tx, SendTransaction tx])
            | Inl err \<Rightarrow>
                if i = retries - 1 then (Inl err, [Simulate tx, SendTransaction tx])
                else (fst (sendTransactionWithSimulation_from e tx retries (i + 1) (t + 3)),
                      Simulate tx # SendTransaction tx # Sleep (1000 * (i + 1))
                        # snd (sendTransactionWithSimulation_from e tx retries (i + 1) (t + 3)))))"
  by (subst sendTransactionWithSimulation_from.simps)
     (simp add: send_attempt_def case_prod_beta numeral_3_eq_3 split: sum.splits)

lemma send_loop_done:
  "\<not> i < retries \<Longrightarrow> sendTransactionWithSimulation_from e tx retries i t = (Inr None, [])"
  by (subst sendTransactionWithSimulation_from.simps) simp

text \<open>The four ways one iteration of the submission loop can go.\<close>

lemma send_loop_cases:
  assumes "i < retries"
  obtains
    (sim_failed_last) "\<not> simulateTransaction e t" "i = retries - 1"
      "sendTransactionWithSimulation_from e tx retries i t
         = (Inl (Error ''Simulation failed on all attempts''), [Simulate tx])"
  | (sim_failed) "\<not> simulateTransaction e t" "i + 1 < retries"
      "sendTransactionWithSimulation_from e tx retries i t
         = (fst (sendTransactionWithSimulation_from e tx retries (i + 1) (t + 2)),
            Simulate tx # Sleep (1000 * (i + 1))
              # snd (sendTransactionWithSimulation_from e tx retries (i + 1) (t + 2)))"
  | (sent) txid where "simulateTransaction e t" "send_rpc e (t + 1) = Inr txid"
      "sendTransactionWithSimulation_from e tx retries i t
         = (Inr (Some txid), [Simulate tx, SendTransaction tx])"
  | (send_failed_last) err where "simulateTransaction e t" "send_rpc e (t + 1) = Inl err"
      "i = retries - 1"
      "sendTransactionWithSimulation_from e tx retries i t
         = (Inl err, [Simulate tx, SendTransaction tx])"
  | (send_failed) err where "simulateTransaction e t" "send_rpc e (t + 1) = Inl err"
      "i + 1 < retries"
      "sendTransactionWithSimulation_from e tx retries i t
         = (fst (sendTransactionWithSimulation_from e tx retries (i + 1) (t + 3)),
            Simulate tx # SendTransaction tx # Sleep (1000 * (i + 1))
              # snd (sendTransactionWithSimulation_from e tx retries (i + 1) (t + 3)))"
proof (cases "simulateTransaction e t")
  case False
  show ?thesis
  proof (cases "i = retries - 1")
    case True
    with False send_loop_unfold[OF assms, of e tx t] show ?thesis
      by (intro sim_failed_last) simp_all
  next
    case ne: False
    with assms have "i + 1 < retries" by simp
    with False ne send_loop_unfold[OF assms, of e tx t] show ?thesis
      by (intro sim_failed) simp_all
  qed
next
  case True
  show ?thesis
  proof (cases "send_rpc e (t + 1)")
    case (Inr txid)
    with True send_loop_unfold[OF assms, of e tx t] show ?thesis
      by (intro sent[of txid]) simp_all
  next
    case (Inl err)
    show ?thesis
    proof (cases "i = retries - 1")
      case last: True
      with True Inl send_loop_unfold[OF assms, of e tx t] show ?thesis
        by (intro send_failed_last[of err]) simp_all
    next
      case ne: False
      with assms have "i + 1 < retries" by simp
      with True Inl ne send_loop_unfold[OF assms, of e tx t] show ?thesis
        by (intro send_failed[of err]) simp_all
    qed
  qed
qed

lemma send_loop_starts:
  assumes "i < retries"
  shows "\<exists>rest. snd (sendTransactionWithSimulation_from e tx retries i t) = Simulate tx # rest"
  using assms by (cases rule: send_loop_cases[of i retries e t tx]) simp_all

lemma guarded_nil: "broadcast_guarded e t []"
  by (simp add: broadcast_guarded_def)

lemma guarded_sim: "broadcast_guarded e t [Simulate tx]"
  by (auto simp: broadcast_guarded_def Cons_eq_append_conv)

lemma guarded_sim_send:
  "simulateTransaction e t \<Longrightarrow> broadcast_guarded e t [Simulate tx, SendTransaction tx]"
  by (auto simp: broadcast_guarded_def Cons_eq_append_conv)

lemma guarded_failed:
  assumes "broadcast_guarded e (t + 2) es"
  shows "broadcast_guarded e t (Simulate tx # Sleep d # es)"
  unfolding broadcast_guarded_def
proof (intro allI impI)
  fix pre post tx'
  assume eq: "Simulate tx # Sleep d # es = pre @ SendTransaction tx' # post"
  then obtain pre2 where pre: "pre = Simulate tx # Sleep d # pre2"
      and es: "es = pre2 @ SendTransaction tx' # post"
    by (auto simp: Cons_eq_append_conv)
  from assms es obtain p where p: "pre2 = p @ [Simulate tx']" "simulateTransaction e (t + 2 + length p)"
    unfolding broadcast_guarded_def by blast
  have "t + length (Simulate tx # Sleep d # p) = t + 2 + length p" by simp
  with p(2) have "simulateTransaction e (t + length (Simulate tx # Sleep d # p))" by (simp only:)
  moreover have "pre = (Simulate tx # Sleep d # p) @ [Simulate tx']" using pre p(1) by simp
  ultimately show "\<exists>pre'. pre = pre' @ [Simulate tx'] \<and> simulateTransaction e (t + length pre')"
    by blast
qed

lemma guarded_resent:
  assumes "simulateTransaction e t" and "broadcast_guarded e (t + 3) es"
  shows "broadcast_guarded e t (Simulate tx # SendTransaction tx # Sleep d # es)"
  unfolding broadcast_guarded_def
proof (intro allI impI)
  fix pre post tx'
  assume eq: "Simulate tx # SendTransaction tx # Sleep d # es = pre @ SendTransaction tx' # post"
  then consider (first) "pre = [Simulate tx]" "tx' = tx"
    | (later) pre2 where "pre = Simulate tx # SendTransaction tx # Sleep d # pre2"
        "es = pre2 @ SendTransaction tx' # post"
    by (auto simp: Cons_eq_append_conv)
  then show "\<exists>pre'. pre = pre' @ [Simulate tx'] \<and> simulateTransaction e (t + length pre')"
  proof cases
    case first
    with assms(1) show ?thesis by (intro exI[of _ "[]"]) simp
  next
    case later
    from assms(2) later(2) obtain p where p: "pre2 = p @ [Simulate tx']"
        "simulateTransaction e (t + 3 + length p)"
      unfolding broadcast_guarded_def by blast
    have "t + length (Simulate tx # SendTransaction tx # Sleep d # p) = t + 3 + length p" by simp
    with p(2) have "simulateTransaction e (t + length (Simulate tx # SendTransaction tx # Sleep d # p))"
      by (simp only:)
    moreover have "pre = (Simulate tx # SendTransaction tx # Sleep d # p) @ [Simulate tx']"
      using later(1) p(1) by simp
    ultimately show ?thesis by blast
  qed
qed

lemma send_loop_guarded:
  "broadcast_guarded e t (snd (sendTransactionWithSimulation_from e tx retries i t))"
proof (induction "retries - i" arbitrary: i t)
  case 0
  then show ?case by (simp add: send_loop_done guarded_nil)
next
  case (Suc n)
  then have lt: "i < retries" and n: "n = retries - (i + 1)" by simp_all
  note IH = Suc.hyps(1)[OF n]
  from lt show ?case
  proof (cases rule: send_loop_cases[of i retries e t tx])
    case sim_failed_last
    then show ?thesis by (simp only: snd_conv guarded_sim)
  next
    case sim_failed
    from guarded_failed[OF IH[of "t + 2"]] show ?thesis by (simp only: sim_failed(3) snd_conv)
  next
    case (sent txid)
    from guarded_sim_send[OF sent(1)] show ?thesis by (simp only: sent(3) snd_conv)
  next
    case (send_failed_last err)
    from guarded_sim_send[OF send_failed_last(1)] show ?thesis
      by (simp only: send_failed_last(4) snd_conv)
  next
    case (send_failed err)
    from guarded_resent[OF send_failed(1) IH[of "t + 3"]] show ?thesis
      by (simp only: send_failed(4) snd_conv)
  qed
qed

lemma resim_sim: "failure_resimulated e t [Simulate tx]"
  by (auto simp: failure_resimulated_def Cons_eq_append_conv)

lemma resim_sim_send:
  "simulateTransaction e t \<Longrightarrow> failure_resimulated e t [Simulate tx, SendTransaction tx]"
  by (auto simp: failure_resimulated_def Cons_eq_append_conv)

lemma resim_failed:
  assumes "failure_resimulated e (t + 2) (Simulate tx # rest)"
  shows "failure_resimulated e t (Simulate tx # Sleep d # Simulate tx # rest)"
  unfolding failure_resimulated_def
proof (intro allI impI)
  fix pre post tx'
  assume a: "Simulate tx # Sleep d # Simulate tx # rest = pre @ Simulate tx' # post
      \<and> \<not> simulateTransaction e (t + length pre) \<and> post \<noteq> []"
  then consider (first) "pre = []" "tx' = tx" "post = Sleep d # Simulate tx # rest"
    | (later) pre2 where "pre = Simulate tx # Sleep d # pre2"
        "Simulate tx # rest = pre2 @ Simulate tx' # post"
    by (auto simp: Cons_eq_append_conv)
  then show "\<exists>d post'. post = Sleep d # Simulate tx' # post'"
  proof cases
    case first
    then show ?thesis by simp
  next
    case later
    have eq: "t + length pre = t + 2 + length pre2" using later(1) by simp
    from a have "\<not> simulateTransaction e (t + length pre)" by blast
    then have "\<not> simulateTransaction e (t + 2 + length pre2)" by (simp only: eq not_False_eq_True)
    with assms later(2) a show ?thesis unfolding failure_resimulated_def by blast
  qed
qed

lemma resim_resent:
  assumes "simulateTransaction e t" and "failure_resimulated e (t + 3) es"
  shows "failure_resimulated e t (Simulate tx # SendTransaction tx # Sleep d # es)"
  unfolding failure_resimulated_def
proof (intro allI impI)
  fix pre post tx'
  assume a: "Simulate tx # SendTransaction tx # Sleep d # es = pre @ Simulate tx' # post
      \<and> \<not> simulateTransaction e (t + length pre) \<and> post \<noteq> []"
  then consider (first) "pre = []"
    | (later) pre2 where "pre = Simulate tx # SendTransaction tx # Sleep d # pre2"
        "es = pre2 @ Simulate tx' # post"
    by (auto simp: Cons_eq_append_conv)
  then show "\<exists>d post'. post = Sleep d # Simulate tx' # post'"
  proof cases
    case first
    with a assms(1) show ?thesis by simp
  next
    case later
    have eq: "t + length pre = t + 3 + length pre2" using later(1) by simp
    from a have "\<not> simulateTransaction e (t + length pre)" by blast
    then have "\<not> simulateTransaction e (t + 3 + length pre2)" by (simp only: eq not_False_eq_True)
    with assms(2) later(2) a show ?thesis unfolding failure_resimulated_def by blast
  qed
qed

lemma send_loop_resimulated:
  "failure_resimulated e t (snd (sendTransactionWithSimulation_from e tx retries i t))"
proof (induction "retries - i" arbitrary: i t)
  case 0
  then show ?case by (simp add: send_loop_done failure_resimulated_def)
next
  case (Suc n)
  then have lt: "i < retries" and n: "n = retries - (i + 1)" by simp_all
  note IH = Suc.hyps(1)[OF n]
  from lt show ?case
  proof (cases rule: send_loop_cases[of i retries e t tx])
    case sim_failed_last
    then show ?thesis by (simp only: snd_conv resim_sim)
  next
    case sim_failed
    from send_loop_starts[OF sim_failed(2), of e tx "t + 2"] obtain rest where
      rest: "snd (sendTransactionWithSimulation_from e tx retries (i + 1) (t + 2)) = Simulate tx # rest"
      by blast
    from IH[of "t + 2"] have "failure_resimulated e (t + 2) (Simulate tx # rest)"
      by (simp only: rest)
    from resim_failed[OF this] show ?thesis by (simp only: sim_failed(3) snd_conv rest)
  next
    case (sent txid)
    from resim_sim_send[OF sent(1)] show ?thesis by (simp only: sent(3) snd_conv)
  next
    case (send_failed_last err)
    from resim_sim_send[OF send_failed_last(1)] show ?thesis
      by (simp only: send_failed_last(4) snd_conv)
  next
    case (send_failed err)
    from resim_resent[OF send_failed(1) IH[of "t + 3"]] show ?thesis
      by (simp only: send_failed(4) snd_conv)
  qed
qed

lemma send_loop_all_fail:
  "i < retries \<Longrightarrow> (\<forall>k. i \<le> k \<and> k < retries \<longrightarrow> \<not> simulateTransaction e (t + 2 * (k - i))) \<Longrightarrow>
   sendTransactionWithSimulation_from e tx retries i t =
     (Inl (Error ''Simulation failed on all attempts''), retry_events (Simulate tx) i (retries - 1))"
proof (induction "retries - i" arbitrary: i t)
  case 0
  then show ?case by simp
next
  case (Suc n)
  then have lt: "i < retries" and n: "n = retries - (i + 1)" by simp_all
  from Suc.prems(2) lt have nosim: "\<not> simulateTransaction e t" by force
  from lt show ?case
  proof (cases rule: send_loop_cases[of i retries e t tx])
    case sim_failed_last
    then show ?thesis by (simp add: retry_events_def)
  next
    case sim_failed
    have "\<forall>k. i + 1 \<le> k \<and> k < retries \<longrightarrow> \<not> simulateTransaction e (t + 2 + 2 * (k - (i + 1)))"
    proof (intro allI impI)
      fix k assume k: "i + 1 \<le> k \<and> k < retries"
      then have "t + 2 + 2 * (k - (i + 1)) = t + 2 * (k - i)" by arith
      moreover from k Suc.prems(2) have "\<not> simulateTransaction e (t + 2 * (k - i))" by simp
      ultimately show "\<not> simulateTransaction e (t + 2 + 2 * (k - (i + 1)))"
        by (simp only: not_False_eq_True)
    qed
    from Suc.hyps(1)[OF n sim_failed(2) this]
    have rec: "sendTransactionWithSimulation_from e tx retries (i + 1) (t + 2) =
        (Inl (Error ''Simulation failed on all attempts''),
         retry_events (Simulate tx) (i + 1) (retries - 1))" .
    have "i < retries - 1" using sim_failed(2) by simp
    from retry_events_step[OF this, of "Simulate tx"]
    have "retry_events (Simulate tx) i (retries - 1)
        = Simulate tx # Sleep (1000 * (i + 1)) # retry_events (Simulate tx) (i + 1) (retries - 1)"
      by simp
    then show ?thesis by (simp only: sim_failed(3) rec fst_conv snd_conv)
  next
    case (sent txid)
    with nosim show ?thesis by simp
  next
    case (send_failed_last err)
    with nosim show ?thesis by simp
  next
    case (send_failed err)
    with nosim show ?thesis by simp
  qed
qed

lemma send_loop_events:
  "set (snd (sendTransactionWithSimulation_from e tx retries i t))
     \<subseteq> {Simulate tx, SendTransaction tx} \<union> range Sleep"
proof (induction "retries - i" arbitrary: i t)
  case 0
  then show ?case by (simp add: send_loop_done)
next
  case (Suc n)
  then have lt: "i < retries" and n: "n = retries - (i + 1)" by simp_all
  note IH = Suc.hyps(1)[OF n]
  from lt show ?case
  proof (cases rule: send_loop_cases[of i retries e t tx])
    case sim_failed
    with IH[of "t + 2"] show ?thesis by auto
  next
    case (send_failed err)
    with IH[of "t + 3"] show ?thesis by auto
  qed simp_all
qed

text \<open>
  Claim C6. In the events of \<^verbatim>\<open>sendTransactionWithSimulation\<close>, whatever the services
  answer: every broadcast comes directly after a simulation of the same transaction
  that succeeded; a failed simulation that is not the last event is followed by a pause
  and a new simulation, so with more than one attempt allowed a failure of the first
  simulation gives the events simulate, pause of 1000 ms, simulate; only the given
  transaction is simulated and broadcast; and when the simulation fails on each of the
  \<open>retries\<close> attempts the call throws and its events are the simulations and the
  pauses between them, with no broadcast.
\<close>

theorem simulate_before_broadcast:
  "(\<forall>pre post tx'.
       snd (sendTransactionWithSimulation e tx retries t) = pre @ SendTransaction tx' # post
       \<longrightarrow> (\<exists>pre'. pre = pre' @ [Simulate tx'] \<and> simulateTransaction e (t + length pre')))
   \<and> (\<forall>pre post tx'.
         snd (sendTransactionWithSimulation e tx retries t) = pre @ Simulate tx' # post
           \<and> \<not> simulateTransaction e (t + length pre) \<and> post \<noteq> []
         \<longrightarrow> (\<exists>d post'. post = Sleep d # Simulate tx' # post'))
   \<and> (1 < retries \<and> \<not> simulateTransaction e t
       \<longrightarrow> (\<exists>rest. snd (sendTransactionWithSimulation e tx retries t)
                     = Simulate tx # Sleep 1000 # Simulate tx # rest))
   \<and> set (snd (sendTransactionWithSimulation e tx retries t))
        \<subseteq> {Simulate tx, SendTransaction tx} \<union> range Sleep
   \<and> (0 < retries \<and> (\<forall>k<retries. \<not> simulateTransaction e (t + 2 * k))
       \<longrightarrow> sendTransactionWithSimulation e tx retries t
             = (Inl (Error ''Simulation failed on all attempts''),
                retry_events (Simulate tx) 0 (retries - 1))
           \<and> SendTransaction tx \<notin> set (retry_events (Simulate tx) 0 (retries - 1)))"
proof (intro conjI)
  show "\<forall>pre post tx'.
       snd (sendTransactionWithSimulation e tx retries t) = pre @ SendTransaction tx' # post
       \<longrightarrow> (\<exists>pre'. pre = pre' @ [Simulate tx'] \<and> simulateTransaction e (t + length pre'))"
    using send_loop_guarded[of e t tx retries 0]
    unfolding broadcast_guarded_def sendTransactionWithSimulation_def .
  show "\<forall>pre post tx'.
         snd (sendTransactionWithSimulation e tx retries t) = pre @ Simulate tx' # post
           \<and> \<not> simulateTransaction e (t + length pre) \<and> post \<noteq> []
         \<longrightarrow> (\<exists>d post'. post = Sleep d # Simulate tx' # post')"
    using send_loop_resimulated[of e t tx retries 0]
    unfolding failure_resimulated_def sendTransactionWithSimulation_def .
  show "1 < retries \<and> \<not> simulateTransaction e t
       \<longrightarrow> (\<exists>rest. snd (sendTransactionWithSimulation e tx retries t)
                     = Simulate tx # Sleep 1000 # Simulate tx # rest)"
  proof
    assume a: "1 < retries \<and> \<not> simulateTransaction e t"
    then have "0 < retries" "0 + 1 < retries" by simp_all
    from send_loop_starts[OF this(2), of e tx "t + 2"] obtain rest where
      "snd (sendTransactionWithSimulation_from e tx retries (0 + 1) (t + 2)) = Simulate tx # rest"
      by blast
    with a send_loop_unfold[OF \<open>0 < retries\<close>, of e tx t]
    show "\<exists>rest. snd (sendTransactionWithSimulation e tx retries t)
                     = Simulate tx # Sleep 1000 # Simulate tx # rest"
      by (simp add: sendTransactionWithSimulation_def)
  qed
  show "set (snd (sendTransactionWithSimulation e tx retries t))
        \<subseteq> {Simulate tx, SendTransaction tx} \<union> range Sleep"
    unfolding sendTransactionWithSimulation_def by (rule send_loop_events)
  show "0 < retries \<and> (\<forall>k<retries. \<not> simulateTransaction e (t + 2 * k))
       \<longrightarrow> sendTransactionWithSimulation e tx retries t
             = (Inl (Error ''Simulation failed on all attempts''),
                retry_events (Simulate tx) 0 (retries - 1))
           \<and> SendTransaction tx \<notin> set (retry_events (Simulate tx) 0 (retries - 1))"
  proof (intro impI conjI)
    assume a: "0 < retries \<and> (\<forall>k<retries. \<not> simulateTransaction e (t + 2 * k))"
    then have "\<forall>k. 0 \<le> k \<and> k < retries \<longrightarrow> \<not> simulateTransaction e (t + 2 * (k - 0))" by simp
    with a send_loop_all_fail[of 0 retries e t tx]
    show "sendTransactionWithSimulation e tx retries t
             = (Inl (Error ''Simulation failed on all attempts''),
                retry_events (Simulate tx) 0 (retries - 1))"
      by (simp add: sendTransactionWithSimulation_def)
    show "SendTransaction tx \<notin> set (retry_events (Simulate tx) 0 (retries - 1))"
      using set_retry_events[of "Simulate tx" 0 "retries - 1"] by auto
  qed
qed

lemma upt_0_2: "[0..<2] = [0, Suc 0]"
  by (simp add: upt_conv_Cons)

text \<open>
  With three attempts: when the first simulation fails and the second passes, the
  events are simulate, pause, simulate, broadcast; when every simulation fails, they are
  three simulations with pauses of 1000 and 2000 ms and the call throws.
\<close>

theorem simulate_before_broadcast_witness:
  "(1::nat) < 3 \<and> \<not> simulateTransaction flaky_sim_env 0 \<and> simulateTransaction flaky_sim_env 2
   \<and> sendTransactionWithSimulation flaky_sim_env sample_tx 3 0
       = (Inr (Some ''SIGNATURE''),
          [Simulate sample_tx, Sleep 1000, Simulate sample_tx, SendTransaction sample_tx])
   \<and> \<not> simulateTransaction failing_sim_env 0 \<and> \<not> simulateTransaction failing_sim_env 2
   \<and> \<not> simulateTransaction failing_sim_env 4
   \<and> sendTransactionWithSimulation failing_sim_env sample_tx 3 0
       = (Inl (Error ''Simulation failed on all attempts''),
          [Simulate sample_tx, Sleep 1000, Simulate sample_tx, Sleep 2000, Simulate sample_tx])"
proof -
  have s0: "\<not> simulateTransaction flaky_sim_env 0" and s2: "simulateTransaction flaky_sim_env 2"
    by (simp_all add: simulateTransaction_def flaky_sim_env_def healthy_env_def)
  have send: "send_rpc flaky_sim_env 3 = Inr ''SIGNATURE''"
    by (simp add: flaky_sim_env_def healthy_env_def)
  have never: "\<forall>k<3. \<not> simulateTransaction failing_sim_env (0 + 2 * k)"
    by (simp add: simulateTransaction_def failing_sim_env_def healthy_env_def)
  note inst = simulate_before_broadcast[of flaky_sim_env sample_tx 3 0]
  from inst s0 obtain rest where rest:
    "snd (sendTransactionWithSimulation flaky_sim_env sample_tx 3 0)
       = Simulate sample_tx # Sleep 1000 # Simulate sample_tx # rest"
    by auto
  have sim: "\<And>u. simulateTransaction flaky_sim_env u = (u \<noteq> 0)"
    and snd: "\<And>u. send_rpc flaky_sim_env u = Inr ''SIGNATURE''"
    by (simp_all add: simulateTransaction_def flaky_sim_env_def healthy_env_def)
  have run: "sendTransactionWithSimulation flaky_sim_env sample_tx 3 0
       = (Inr (Some ''SIGNATURE''),
          [Simulate sample_tx, Sleep 1000, Simulate sample_tx, SendTransaction sample_tx])"
    by (simp add: sendTransactionWithSimulation_def send_loop_unfold sim snd)
  from simulate_before_broadcast[of failing_sim_env sample_tx 3 0] never
  have "sendTransactionWithSimulation failing_sim_env sample_tx 3 0
       = (Inl (Error ''Simulation failed on all attempts''),
          retry_events (Simulate sample_tx) 0 (3 - 1))"
    by simp
  then have fail: "sendTransactionWithSimulation failing_sim_env sample_tx 3 0
       = (Inl (Error ''Simulation failed on all attempts''),
          [Simulate sample_tx, Sleep 1000, Simulate sample_tx, Sleep 2000, Simulate sample_tx])"
    by (simp add: retry_events_def upt_0_2)
  have "\<not> simulateTransaction failing_sim_env 0" "\<not> simulateTransaction failing_sim_env 2"
    "\<not> simulateTransaction failing_sim_env 4"
    by (simp_all add: simulateTransaction_def failing_sim_env_def healthy_env_def)
  with s0 s2 run fail rest show ?thesis by simp
qed

section \<open>Events of the stages of a cycle\<close>

lemma getQuote_events:
  "set (snd (getQuote e a b amt retries t)) \<subseteq> insert (FetchQuote (quote_url a b amt)) (range Sleep)"
proof (cases "0 < retries")
  case True
  from getQuote_from_shape[OF this, of e "quote_url a b amt" t] set_retry_events
  show ?thesis unfolding getQuote_def by metis
next
  case False
  then show ?thesis by (simp add: getQuote_def getQuote_from_zero)
qed

lemma getSwapPayload_from_unfold:
  "i < retries \<Longrightarrow>
   getSwapPayload_from e req retries i t =
     (case swap_attempt e t of
        Inr res \<Rightarrow> (Inr (Some res), [FetchSwapInstructions req])
      | Inl err \<Rightarrow>
          if i = retries - 1 then (Inl err, [FetchSwapInstructions req])
          else (fst (getSwapPayload_from e req retries (i + 1) (t + 2)),
                FetchSwapInstructions req # Sleep (1000 * (i + 1))
                  # snd (getSwapPayload_from e req retries (i + 1) (t + 2))))"
  by (subst getSwapPayload_from.simps) (simp add: case_prod_beta split: sum.splits)

lemma getSwapPayload_from_done:
  "\<not> i < retries \<Longrightarrow> getSwapPayload_from e req retries i t = (Inr None, [])"
  by (subst getSwapPayload_from.simps) simp

lemma getSwapPayload_from_events:
  "set (snd (getSwapPayload_from e req retries i t))
     \<subseteq> insert (FetchSwapInstructions req) (range Sleep)"
proof (induction "retries - i" arbitrary: i t)
  case 0
  then show ?case by (simp add: getSwapPayload_from_done)
next
  case (Suc n)
  then have lt: "i < retries" and n: "n = retries - (i + 1)" by simp_all
  from Suc.hyps(1)[OF n, of "t + 2"] show ?case
    by (auto simp: getSwapPayload_from_unfold[OF lt] split: sum.splits)
qed

lemma getSwapPayload_events:
  "set (snd (getSwapPayload cfg e quote retries t))
     \<subseteq> insert (FetchSwapInstructions (swap_request_of cfg quote)) (range Sleep)"
  unfolding getSwapPayload_def by (rule getSwapPayload_from_events)

lemma getQuote_no_confirm: "list_all (\<lambda>ev. \<not> is_confirm ev) (snd (getQuote e a b amt retries t))"
  using getQuote_events[of e a b amt retries t] by (auto simp: list_all_iff)

lemma getQuote_no_build: "list_all (\<lambda>ev. \<not> is_build_call ev) (snd (getQuote e a b amt retries t))"
  using getQuote_events[of e a b amt retries t] by (auto simp: list_all_iff)

lemma getSwapPayload_no_confirm:
  "list_all (\<lambda>ev. \<not> is_confirm ev) (snd (getSwapPayload cfg e quote retries t))"
  using getSwapPayload_events[of cfg e quote retries t] by (auto simp: list_all_iff)

lemma send_no_confirm:
  "list_all (\<lambda>ev. \<not> is_confirm ev) (snd (sendTransactionWithSimulation e tx retries t))"
  using send_loop_events[of e tx retries 0 t]
  by (auto simp: list_all_iff sendTransactionWithSimulation_def)

text \<open>A submission that returns has just broadcast, or made no attempt at all.\<close>

lemma send_loop_returns:
  "fst (sendTransactionWithSimulation_from e tx retries i t) = Inr r \<Longrightarrow> i < retries \<Longrightarrow>
   \<exists>xs txid. snd (sendTransactionWithSimulation_from e tx retries i t) = xs @ [SendTransaction tx]
     \<and> r = Some txid"
proof (induction "retries - i" arbitrary: i t)
  case 0
  then show ?case by simp
next
  case (Suc n)
  then have lt: "i < retries" and n: "n = retries - (i + 1)" by simp_all
  note IH = Suc.hyps(1)[OF n]
  from lt show ?case
  proof (cases rule: send_loop_cases[of i retries e t tx])
    case sim_failed_last
    with Suc.prems show ?thesis by simp
  next
    case sim_failed
    with Suc.prems(1) have "fst (sendTransactionWithSimulation_from e tx retries (i + 1) (t + 2)) = Inr r"
      by simp
    from IH[OF this sim_failed(2)] obtain xs txid where
      "snd (sendTransactionWithSimulation_from e tx retries (i + 1) (t + 2)) = xs @ [SendTransaction tx]"
      "r = Some txid" by blast
    with sim_failed(3) show ?thesis
      by (intro exI[of _ "Simulate tx # Sleep (1000 * (i + 1)) # xs"] exI[of _ txid]) simp
  next
    case (sent txid)
    with Suc.prems(1) show ?thesis
      by (intro exI[of _ "[Simulate tx]"] exI[of _ txid]) simp
  next
    case (send_failed_last err)
    with Suc.prems show ?thesis by simp
  next
    case (send_failed err)
    with Suc.prems(1) have "fst (sendTransactionWithSimulation_from e tx retries (i + 1) (t + 3)) = Inr r"
      by simp
    from IH[OF this send_failed(3)] obtain xs txid where
      "snd (sendTransactionWithSimulation_from e tx retries (i + 1) (t + 3)) = xs @ [SendTransaction tx]"
      "r = Some txid" by blast
    with send_failed(4) show ?thesis
      by (intro exI[of _ "Simulate tx # SendTransaction tx # Sleep (1000 * (i + 1)) # xs"]
                exI[of _ txid]) simp
  qed
qed

section \<open>The confirmation is the last event of a cycle\<close>

lemma confirm_last_plain:
  "list_all (\<lambda>ev. \<not> is_confirm ev) es \<Longrightarrow> r \<noteq> Inr Confirmed \<Longrightarrow> confirm_last e t (r, es)"
  by (simp add: confirm_last_def)

lemma confirm_last_prepend:
  assumes "list_all (\<lambda>ev. \<not> is_confirm ev) ys" and "confirm_last e (t + length ys) (r, es)"
  shows "confirm_last e t (r, ys @ es)"
proof -
  from assms(2) consider
      (plain) "list_all (\<lambda>ev. \<not> is_confirm ev) es" "r \<noteq> Inr Confirmed"
    | (confirmed) xs tx txid blockhash height where
        "es = xs @ [SendTransaction tx, ConfirmTransaction txid blockhash height]"
        "list_all (\<lambda>ev. \<not> is_confirm ev) xs"
        "r = (case confirm_rpc e (t + length ys + length xs + 1) of
                Inl err \<Rightarrow> Inr (Failed (SendError err)) | Inr r \<Rightarrow> Inr Confirmed)"
    unfolding confirm_last_def by auto
  then show ?thesis
  proof cases
    case plain
    with assms(1) show ?thesis by (simp add: confirm_last_def)
  next
    case confirmed
    have "t + length (ys @ xs) + 1 = t + length ys + length xs + 1" by simp
    with confirmed(3) have "r = (case confirm_rpc e (t + length (ys @ xs) + 1) of
                Inl err \<Rightarrow> Inr (Failed (SendError err)) | Inr r \<Rightarrow> Inr Confirmed)"
      by (simp only:)
    moreover have "ys @ es = (ys @ xs) @ [SendTransaction tx, ConfirmTransaction txid blockhash height]"
      using confirmed(1) by simp
    moreover have "list_all (\<lambda>ev. \<not> is_confirm ev) (ys @ xs)"
      using assms(1) confirmed(2) by simp
    ultimately show ?thesis unfolding confirm_last_def fst_conv snd_conv by blast
  qed
qed

lemma submit_and_confirm_last:
  "confirm_last e t (Inr (fst (submit_and_confirm e tx bh h t)), snd (submit_and_confirm e tx bh h t))"
proof (cases "sendTransactionWithSimulation e tx MAX_RETRIES t")
  case (Pair r es)
  note nc = send_no_confirm[of e tx MAX_RETRIES t]
  show ?thesis
  proof (cases r)
    case (Inl err)
    with Pair nc show ?thesis
      by (simp add: submit_and_confirm_def confirm_last_plain)
  next
    case (Inr txid)
    have "0 < MAX_RETRIES" by (simp add: MAX_RETRIES_def)
    with send_loop_returns[of e tx MAX_RETRIES 0 t txid] Pair Inr
    obtain xs where xs: "es = xs @ [SendTransaction tx]"
      by (auto simp: sendTransactionWithSimulation_def)
    with nc Pair have ncx: "list_all (\<lambda>ev. \<not> is_confirm ev) xs" by simp
    have res: "submit_and_confirm e tx bh h t =
        ((case confirm_rpc e (t + length xs + 1) of
            Inl err \<Rightarrow> Failed (SendError err) | Inr r \<Rightarrow> Confirmed),
         xs @ [SendTransaction tx, ConfirmTransaction txid bh h])"
      using Pair Inr xs by (simp add: submit_and_confirm_def split: sum.splits)
    show ?thesis
      unfolding confirm_last_def res fst_conv snd_conv
      using ncx by (intro disjI2 exI[of _ xs] exI[of _ tx] exI[of _ txid] exI[of _ bh] exI[of _ h])
                   (simp split: sum.splits)
  qed
qed

lemma assemble_and_submit_last: "confirm_last e t (assemble_and_submit cfg e buy sell t)"
proof (cases "blockhash_rpc e t")
  case (Inl err)
  then show ?thesis by (simp add: assemble_and_submit_def confirm_last_plain)
next
  case (Inr bh)
  obtain blockhash height where bh: "bh = (blockhash, height)" by (cases bh)
  let ?tables = "optimize_alts e (lookupTables buy) (lookupTables sell)"
  show ?thesis
  proof (cases "createOptimizedTransaction cfg e (instructions buy @ instructions sell) ?tables blockhash")
    case None
    with Inr bh show ?thesis by (simp add: assemble_and_submit_def confirm_last_plain)
  next
    case (Some atomicTx)
    show ?thesis
    proof (cases "sign cfg e atomicTx")
      case (Inl err)
      with Inr bh Some show ?thesis by (simp add: assemble_and_submit_def confirm_last_plain)
    next
      case signed: (Inr signedTx)
      have res: "assemble_and_submit cfg e buy sell t =
          (Inr (fst (submit_and_confirm e signedTx blockhash height (t + 1))),
           [GetLatestBlockhash] @ snd (submit_and_confirm e signedTx blockhash height (t + 1)))"
        using Inr bh Some signed by (simp add: assemble_and_submit_def case_prod_beta)
      have "confirm_last e (t + length [GetLatestBlockhash])
          (Inr (fst (submit_and_confirm e signedTx blockhash height (t + 1))),
           snd (submit_and_confirm e signedTx blockhash height (t + 1)))"
        using submit_and_confirm_last[of e "t + 1" signedTx blockhash height] by simp
      from confirm_last_prepend[OF _ this] show ?thesis unfolding res by simp
    qed
  qed
qed

lemma execute_trade_last: "confirm_last e t (execute_trade cfg e quoteBuy quoteSell sellOut t)"
proof -
  let ?es0 = "BotOpportunity (opportunity_of cfg sellOut)"
  have n0: "list_all (\<lambda>ev. \<not> is_confirm ev) ?es0" by (simp add: BotOpportunity_def)
  obtain r1 es1 where g1: "getSwapPayload cfg e quoteBuy MAX_RETRIES (t + length ?es0) = (r1, es1)"
    by (cases "getSwapPayload cfg e quoteBuy MAX_RETRIES (t + length ?es0)")
  from getSwapPayload_no_confirm[of cfg e quoteBuy MAX_RETRIES "t + length ?es0"] g1
  have n1: "list_all (\<lambda>ev. \<not> is_confirm ev) es1" by simp
  obtain r2 es2 where
    g2: "getSwapPayload cfg e quoteSell MAX_RETRIES (t + length ?es0 + length es1) = (r2, es2)"
    by (cases "getSwapPayload cfg e quoteSell MAX_RETRIES (t + length ?es0 + length es1)")
  from getSwapPayload_no_confirm[of cfg e quoteSell MAX_RETRIES "t + length ?es0 + length es1"] g2
  have n2: "list_all (\<lambda>ev. \<not> is_confirm ev) es2" by simp
  show ?thesis
  proof (cases r1)
    case (Inl err)
    with g1 n0 n1 show ?thesis by (simp add: execute_trade_def Let_def confirm_last_plain)
  next
    case (Inr p1)
    show ?thesis
    proof (cases p1)
      case None
      with Inr g1 n0 n1 show ?thesis by (simp add: execute_trade_def Let_def confirm_last_plain)
    next
      case (Some buy)
      show ?thesis
      proof (cases r2)
        case (Inl err)
        with Inr Some g1 g2 n0 n1 n2 show ?thesis
          by (simp add: execute_trade_def Let_def confirm_last_plain)
      next
        case r2: (Inr p2)
        show ?thesis
        proof (cases p2)
          case None
          with Inr Some r2 g1 g2 n0 n1 n2 show ?thesis
            by (simp add: execute_trade_def Let_def confirm_last_plain)
        next
          case sell: (Some sell)
          let ?t3 = "t + length ?es0 + length es1 + length es2"
          have res: "execute_trade cfg e quoteBuy quoteSell sellOut t =
              (fst (assemble_and_submit cfg e buy sell ?t3),
               (?es0 @ es1 @ es2) @ snd (assemble_and_submit cfg e buy sell ?t3))"
            using Inr Some r2 sell g1 g2 by (simp add: execute_trade_def Let_def case_prod_beta)
          have "confirm_last e (t + length (?es0 @ es1 @ es2))
              (fst (assemble_and_submit cfg e buy sell ?t3),
               snd (assemble_and_submit cfg e buy sell ?t3))"
            using assemble_and_submit_last[of e ?t3 cfg buy sell] by (simp add: add.assoc)
          from confirm_last_prepend[OF _ this] n0 n1 n2 show ?thesis unfolding res by simp
        qed
      qed
    qed
  qed
qed

lemma profit_check_last: "confirm_last e t (profit_check cfg e quoteBuy quoteSell t)"
  by (simp add: profit_check_def confirm_last_plain execute_trade_last split: sum.splits)

lemma checkAndTrade_try_last: "confirm_last e t (checkAndTrade_try cfg e t)"
proof -
  obtain r1 es1 where
    g1: "getQuote e USDC_MINT WSOL_MINT (JNum (INPUT_USDC cfg)) MAX_RETRIES t = (r1, es1)"
    by (cases "getQuote e USDC_MINT WSOL_MINT (JNum (INPUT_USDC cfg)) MAX_RETRIES t")
  from getQuote_no_confirm[of e USDC_MINT WSOL_MINT "JNum (INPUT_USDC cfg)" MAX_RETRIES t] g1
  have n1: "list_all (\<lambda>ev. \<not> is_confirm ev) es1" by simp
  show ?thesis
  proof (cases r1)
    case (Inl err)
    with g1 n1 show ?thesis by (simp add: checkAndTrade_try_def confirm_last_plain)
  next
    case (Inr q1)
    show ?thesis
    proof (cases q1)
      case None
      with Inr g1 n1 show ?thesis by (simp add: checkAndTrade_try_def confirm_last_plain)
    next
      case (Some quoteBuy)
      obtain r2 es2 where
        g2: "getQuote e WSOL_MINT USDC_MINT (outAmount quoteBuy) MAX_RETRIES (t + length es1) = (r2, es2)"
        by (cases "getQuote e WSOL_MINT USDC_MINT (outAmount quoteBuy) MAX_RETRIES (t + length es1)")
      from getQuote_no_confirm[of e WSOL_MINT USDC_MINT "outAmount quoteBuy" MAX_RETRIES "t + length es1"] g2
      have n2: "list_all (\<lambda>ev. \<not> is_confirm ev) es2" by simp
      show ?thesis
      proof (cases r2)
        case (Inl err)
        with Inr Some g1 g2 n1 n2 show ?thesis by (simp add: checkAndTrade_try_def confirm_last_plain)
      next
        case r2: (Inr q2)
        show ?thesis
        proof (cases q2)
          case None
          with Inr Some r2 g1 g2 n1 n2 show ?thesis
            by (simp add: checkAndTrade_try_def confirm_last_plain)
        next
          case sell: (Some quoteSell)
          let ?t3 = "t + length es1 + length es2"
          have res: "checkAndTrade_try cfg e t =
              (fst (profit_check cfg e quoteBuy quoteSell ?t3),
               (es1 @ es2) @ snd (profit_check cfg e quoteBuy quoteSell ?t3))"
            using Inr Some r2 sell g1 g2 by (simp add: checkAndTrade_try_def case_prod_beta)
          have "confirm_last e (t + length (es1 @ es2))
              (fst (profit_check cfg e quoteBuy quoteSell ?t3),
               snd (profit_check cfg e quoteBuy quoteSell ?t3))"
            using profit_check_last[of e ?t3 cfg quoteBuy quoteSell] by (simp add: add.assoc)
          from confirm_last_prepend[OF _ this] n1 n2 show ?thesis unfolding res by simp
        qed
      qed
    qed
  qed
qed

lemma checkAndTrade_events: "snd (checkAndTrade cfg e t) = snd (checkAndTrade_try cfg e t)"
  by (simp add: checkAndTrade_def split: prod.splits sum.splits thrown.splits)

lemma checkAndTrade_last: "confirm_last e t (checkAndTrade cfg e t)"
proof (cases "checkAndTrade_try cfg e t")
  case (Pair r es)
  show ?thesis
  proof (cases r)
    case (Inl thrown)
    have ne: "\<And>u. (Inl thrown :: thrown + outcome) \<noteq>
        (case confirm_rpc e u of Inl err \<Rightarrow> Inr (Failed (SendError err)) | Inr r \<Rightarrow> Inr Confirmed)"
      by (simp split: sum.splits)
    from Inl Pair checkAndTrade_try_last[of e t cfg] have "confirm_last e t (Inl thrown, es)"
      by simp
    then consider (plain) "list_all (\<lambda>ev. \<not> is_confirm ev) es"
      | (confirmed) u where "(Inl thrown :: thrown + outcome) =
          (case confirm_rpc e u of Inl err \<Rightarrow> Inr (Failed (SendError err)) | Inr r \<Rightarrow> Inr Confirmed)"
      unfolding confirm_last_def fst_conv snd_conv by blast
    then have "list_all (\<lambda>ev. \<not> is_confirm ev) es"
    proof cases
      case plain
      then show ?thesis .
    next
      case confirmed
      with ne[of u] show ?thesis by simp
    qed
    with Pair Inl show ?thesis
      by (cases thrown) (simp_all add: checkAndTrade_def confirm_last_plain)
  next
    case (Inr result)
    have same: "\<And>u. ((Inr result :: thrown + outcome) =
          (case confirm_rpc e u of Inl err \<Rightarrow> Inr (Failed (SendError err)) | Inr r \<Rightarrow> Inr Confirmed))
        = ((Inr result :: error + outcome) =
          (case confirm_rpc e u of Inl err \<Rightarrow> Inr (Failed (SendError err)) | Inr r \<Rightarrow> Inr Confirmed))"
      by (simp split: sum.splits)
    from Inr Pair checkAndTrade_try_last[of e t cfg] show ?thesis
      by (simp add: checkAndTrade_def confirm_last_def same)
  qed
qed

section \<open>Nullish thrown values\<close>


lemma assemble_rejects:
  "blockhash_rpc e t = Inl Nullish \<Longrightarrow>
   assemble_and_submit cfg e buy sell t = (Inl Nullish, [GetLatestBlockhash])"
  by (simp add: assemble_and_submit_def)







section \<open>Sample cycles\<close>

lemma getQuote_first_ok:
  "0 < retries \<Longrightarrow> quote_attempt e t = Inr res \<Longrightarrow>
   getQuote e a b amt retries t = (Inr (Some res), [FetchQuote (quote_url a b amt)])"
  by (simp add: getQuote_def getQuote_from_unfold)

lemma getSwapPayload_first_ok:
  "0 < retries \<Longrightarrow> swap_attempt e t = Inr res \<Longrightarrow>
   getSwapPayload cfg e q retries t = (Inr (Some res), [FetchSwapInstructions (swap_request_of cfg q)])"
  by (simp add: getSwapPayload_def getSwapPayload_from_unfold)

lemma send_first_ok:
  "0 < retries \<Longrightarrow> simulateTransaction e t \<Longrightarrow> send_rpc e (t + 1) = Inr txid \<Longrightarrow>
   sendTransactionWithSimulation e tx retries t = (Inr (Some txid), [Simulate tx, SendTransaction tx])"
  by (simp add: sendTransactionWithSimulation_def send_loop_unfold)

text \<open>A cycle in which every service answers the first request.\<close>

lemma smooth_cycle:
  assumes "quote_attempt e 0 = Inr quoteBuy"
    and "\<And>u. 0 < u \<Longrightarrow> quote_attempt e u = Inr quoteSell"
    and "BigInt (outAmount quoteSell) = Inr sellOut"
    and "\<not> sellOut < required cfg"
    and "\<And>u. swap_attempt e u = Inr p"
    and "\<And>u. blockhash_rpc e u = Inr (blockhash, height)"
    and "createOptimizedTransaction cfg e (instructions p @ instructions p)
           (optimize_alts e (lookupTables p) (lookupTables p)) blockhash = Some tx"
    and "sign cfg e tx = Inr signedTx"
    and "\<And>u. simulateTransaction e u"
    and "\<And>u. send_rpc e u = Inr txid"
    and "\<And>u. confirm_rpc e u = answer"
  shows "checkAndTrade cfg e 0 =
     ((case answer of
         Inl err \<Rightarrow> Inr (Failed (SendError err)) | Inr r \<Rightarrow> Inr Confirmed),
      [FetchQuote (quote_url USDC_MINT WSOL_MINT (JNum (INPUT_USDC cfg))),
       FetchQuote (quote_url WSOL_MINT USDC_MINT (outAmount quoteBuy)),
       Notify (opportunity_of cfg sellOut),
       FetchSwapInstructions (swap_request_of cfg quoteBuy),
       FetchSwapInstructions (swap_request_of cfg quoteSell),
       GetLatestBlockhash,
       Simulate signedTx,
       SendTransaction signedTx,
       ConfirmTransaction (Some txid) blockhash height])"
proof -
  have submit: "\<And>u. submit_and_confirm e signedTx blockhash height u =
      ((case answer of Inl err \<Rightarrow> Failed (SendError err) | Inr r \<Rightarrow> Confirmed),
       [Simulate signedTx, SendTransaction signedTx, ConfirmTransaction (Some txid) blockhash height])"
    using assms(9,10,11)
    by (simp add: submit_and_confirm_def send_first_ok MAX_RETRIES_def split: sum.splits)
  have assemble: "\<And>u. assemble_and_submit cfg e p p u =
      ((case answer of Inl err \<Rightarrow> Inr (Failed (SendError err)) | Inr r \<Rightarrow> Inr Confirmed),
       [GetLatestBlockhash, Simulate signedTx, SendTransaction signedTx,
        ConfirmTransaction (Some txid) blockhash height])"
    using assms(6,7,8) submit by (simp add: assemble_and_submit_def split: sum.splits)
  have trade: "\<And>u. execute_trade cfg e quoteBuy quoteSell sellOut u =
      ((case answer of Inl err \<Rightarrow> Inr (Failed (SendError err)) | Inr r \<Rightarrow> Inr Confirmed),
       [Notify (opportunity_of cfg sellOut),
        FetchSwapInstructions (swap_request_of cfg quoteBuy),
        FetchSwapInstructions (swap_request_of cfg quoteSell),
        GetLatestBlockhash, Simulate signedTx, SendTransaction signedTx,
        ConfirmTransaction (Some txid) blockhash height])"
    using assms(5) assemble
    by (simp add: execute_trade_def BotOpportunity_def getSwapPayload_first_ok MAX_RETRIES_def)
  have check: "\<And>u. profit_check cfg e quoteBuy quoteSell u
      = execute_trade cfg e quoteBuy quoteSell sellOut u"
    using assms(3,4) by (simp add: profit_check_def)
  have "checkAndTrade_try cfg e 0 =
      ((case answer of Inl err \<Rightarrow> Inr (Failed (SendError err)) | Inr r \<Rightarrow> Inr Confirmed),
       [FetchQuote (quote_url USDC_MINT WSOL_MINT (JNum (INPUT_USDC cfg))),
       FetchQuote (quote_url WSOL_MINT USDC_MINT (outAmount quoteBuy)),
       Notify (opportunity_of cfg sellOut),
       FetchSwapInstructions (swap_request_of cfg quoteBuy),
       FetchSwapInstructions (swap_request_of cfg quoteSell),
       GetLatestBlockhash,
       Simulate signedTx,
       SendTransaction signedTx,
       ConfirmTransaction (Some txid) blockhash height])"
    using assms(1,2) check trade
    by (simp add: checkAndTrade_try_def getQuote_first_ok MAX_RETRIES_def)
  then show ?thesis by (simp add: checkAndTrade_def split: sum.splits)
qed

lemma BigInt_sample_sell: "BigInt (JStr ''10001300'') = Inr 10001300"
  by (simp add: StringToBigInt_def trim_def is_white_def parse_digits_def digit_of_def)

lemma BigInt_thin_sell: "BigInt (JStr ''10000500'') = Inr 10000500"
  by (simp add: StringToBigInt_def trim_def is_white_def parse_digits_def digit_of_def)

lemma keyed_source: "keyed_config ''PRIVATE_KEY_BASE58'' = source_config"
  by (simp add: keyed_config_def source_config_def)

lemma healthy_like_cycle:
  assumes "e = healthy_env\<lparr>confirm_rpc := (\<lambda>u. answer)\<rparr>"
  shows "checkAndTrade (keyed_config key) e 0 =
     ((case answer of Inl err \<Rightarrow> Inr (Failed (SendError err)) | Inr r \<Rightarrow> Inr Confirmed),
      [FetchQuote (quote_url USDC_MINT WSOL_MINT (JNum 10000000)),
       FetchQuote (quote_url WSOL_MINT USDC_MINT (JStr ''60000'')),
       Notify [(''profit'', PNum (13 / 10000)), (''inputAmount'', PNum 10),
               (''fees'', PNum (1 / 200000)), (''privateKey'', PStr key)],
       FetchSwapInstructions (swap_request_of source_config (sample_quote ''60000'')),
       FetchSwapInstructions (swap_request_of source_config (sample_quote ''10001300'')),
       GetLatestBlockhash,
       Simulate signed_cycle_tx,
       SendTransaction signed_cycle_tx,
       ConfirmTransaction (Some ''SIGNATURE'') ''BLOCKHASH'' 250000000])"
proof -
  have q0: "quote_attempt e 0 = Inr (sample_quote ''60000'')"
    and q1: "\<And>u. 0 < u \<Longrightarrow> quote_attempt e u = Inr (sample_quote ''10001300'')"
    by (simp_all add: assms quote_attempt_def healthy_env_def sample_quote_def)
  have big: "BigInt (outAmount (sample_quote ''10001300'')) = Inr 10001300"
    using BigInt_sample_sell by (simp add: sample_quote_def del: BigInt.simps)
  have req: "\<not> (10001300::int) < required (keyed_config key)"
    by (simp add: required_def source_config_def keyed_config_def)
  have sw: "\<And>u. swap_attempt e u = Inr \<lparr>instructions = [sample_ix], lookupTables = []\<rparr>"
    by (simp add: assms swap_attempt_def healthy_env_def build_instruction_def response_alts_def examine_response_def
          sample_ix_def)
  have bh: "\<And>u. blockhash_rpc e u = Inr (''BLOCKHASH'', 250000000)"
    by (simp add: assms healthy_env_def)
  have tx: "createOptimizedTransaction (keyed_config key) e
        (instructions \<lparr>instructions = [sample_ix], lookupTables = []\<rparr>
           @ instructions \<lparr>instructions = [sample_ix], lookupTables = []\<rparr>)
        (optimize_alts e (lookupTables \<lparr>instructions = [sample_ix], lookupTables = []\<rparr>)
           (lookupTables \<lparr>instructions = [sample_ix], lookupTables = []\<rparr>)) ''BLOCKHASH''
      = Some cycle_tx"
    by (simp add: assms createOptimizedTransaction_def try_strategy_def optimize_alts_def
          validateAndOptimizeTransaction_def MAX_TX_SIZE_def healthy_env_def cycle_tx_def
          compile_tx_def keyed_config_def)
  have sg: "sign (keyed_config key) e cycle_tx = Inr signed_cycle_tx"
    by (simp add: assms sign_def healthy_env_def signed_cycle_tx_def source_config_def
          keyed_config_def)
  have sim: "\<And>u. simulateTransaction e u" and snd: "\<And>u. send_rpc e u = Inr ''SIGNATURE''"
    by (simp_all add: assms simulateTransaction_def healthy_env_def)
  have cf: "\<And>u. confirm_rpc e u = answer" by (simp add: assms)
  have opp: "opportunity_of (keyed_config key) 10001300 =
      [(''profit'', PNum (13 / 10000)), (''inputAmount'', PNum 10),
       (''fees'', PNum (1 / 200000)), (''privateKey'', PStr key)]"
    by (simp add: opportunity_of_def source_config_def keyed_config_def)
  have cfg: "INPUT_USDC (keyed_config key) = 10000000"
    by (simp add: source_config_def keyed_config_def)
  have rq: "\<And>q. swap_request_of (keyed_config key) q = swap_request_of source_config q"
    by (simp add: swap_request_of_def keyed_config_def)
  from smooth_cycle[OF q0 q1 big req sw bh tx sg sim snd cf] show ?thesis
    by (simp add: opp cfg rq sample_quote_def)
qed


section \<open>Confirmation\<close>

lemma last_confirm_unique:
  "list_all (\<lambda>ev. \<not> is_confirm ev) ys \<Longrightarrow> is_confirm c' \<Longrightarrow> ys @ [c] = pre @ c' # post \<Longrightarrow>
   pre = ys \<and> post = [] \<and> c' = c"
proof (induction ys arbitrary: pre)
  case Nil
  then show ?case by (auto simp: Cons_eq_append_conv)
next
  case (Cons y ys)
  show ?case
  proof (cases pre)
    case Nil
    with Cons.prems show ?thesis by auto
  next
    case (Cons p pre')
    with Cons.prems have "ys @ [c] = pre' @ c' # post" "p = y" "list_all (\<lambda>ev. \<not> is_confirm ev) ys"
      by simp_all
    with Cons.IH[of pre'] Cons.prems(2) Cons show ?thesis by simp
  qed
qed

lemma no_confirm_inside:
  "list_all (\<lambda>ev. \<not> is_confirm ev) (pre @ ConfirmTransaction txid blockhash height # post) \<Longrightarrow> False"
  by simp

text \<open>
  Claim C8. In every cycle a confirmation request is the last event of the cycle and
  comes directly after a broadcast: nothing is simulated or broadcast after it. When the
  confirmation fails, the cycle ends as failed with the error of the confirmation.
\<close>

theorem confirmation_failure_not_resubmitted:
  "\<forall>pre post txid blockhash height.
      snd (checkAndTrade cfg e t) = pre @ ConfirmTransaction txid blockhash height # post
      \<longrightarrow> post = []
          \<and> (\<exists>pre' tx. pre = pre' @ [SendTransaction tx])
          \<and> (\<forall>err. confirm_rpc e (t + length pre) = Inl err
                \<longrightarrow> fst (checkAndTrade cfg e t) = Inr (Failed (SendError err)))"
proof (intro allI impI)
  fix pre post txid blockhash height
  assume ev: "snd (checkAndTrade cfg e t) = pre @ ConfirmTransaction txid blockhash height # post"
  from checkAndTrade_last[of e t cfg] consider
      (plain) "list_all (\<lambda>ev. \<not> is_confirm ev) (snd (checkAndTrade cfg e t))"
    | (confirmed) xs tx txid' blockhash' height' where
        "snd (checkAndTrade cfg e t) = xs @ [SendTransaction tx, ConfirmTransaction txid' blockhash' height']"
        "list_all (\<lambda>ev. \<not> is_confirm ev) xs"
        "fst (checkAndTrade cfg e t) = (case confirm_rpc e (t + length xs + 1) of
                            Inl err \<Rightarrow> Inr (Failed (SendError err))
                          | Inr r \<Rightarrow> Inr Confirmed)"
    unfolding confirm_last_def by blast
  then show "post = []
          \<and> (\<exists>pre' tx. pre = pre' @ [SendTransaction tx])
          \<and> (\<forall>err. confirm_rpc e (t + length pre) = Inl err
                \<longrightarrow> fst (checkAndTrade cfg e t) = Inr (Failed (SendError err)))"
  proof cases
    case plain
    with ev no_confirm_inside show ?thesis by metis
  next
    case confirmed
    have "(xs @ [SendTransaction tx]) @ [ConfirmTransaction txid' blockhash' height']
        = pre @ ConfirmTransaction txid blockhash height # post"
      using ev confirmed(1) by simp
    moreover have "list_all (\<lambda>ev. \<not> is_confirm ev) (xs @ [SendTransaction tx])"
      using confirmed(2) by simp
    ultimately have pre: "pre = xs @ [SendTransaction tx]" and post: "post = []"
      using last_confirm_unique[of "xs @ [SendTransaction tx]" "ConfirmTransaction txid blockhash height"
              "ConfirmTransaction txid' blockhash' height'" pre post]
      by simp_all
    have "t + length pre = t + length xs + 1" using pre by simp
    with confirmed(3) have "\<forall>err. confirm_rpc e (t + length pre) = Inl err
                \<longrightarrow> fst (checkAndTrade cfg e t) = Inr (Failed (SendError err))"
      by simp
    with pre post show ?thesis by blast
  qed
qed

lemma unconfirmed_cycle:
  "checkAndTrade source_config unconfirmed_env 0 =
     (Inr (Failed (SendError (Error ''block height exceeded''))),
      [FetchQuote (quote_url USDC_MINT WSOL_MINT (JNum 10000000)),
       FetchQuote (quote_url WSOL_MINT USDC_MINT (JStr ''60000'')),
       Notify [(''profit'', PNum (13 / 10000)), (''inputAmount'', PNum 10),
               (''fees'', PNum (1 / 200000)), (''privateKey'', PStr ''PRIVATE_KEY_BASE58'')],
       FetchSwapInstructions (swap_request_of source_config (sample_quote ''60000'')),
       FetchSwapInstructions (swap_request_of source_config (sample_quote ''10001300'')),
       GetLatestBlockhash,
       Simulate signed_cycle_tx,
       SendTransaction signed_cycle_tx,
       ConfirmTransaction (Some ''SIGNATURE'') ''BLOCKHASH'' 250000000])"
  using healthy_like_cycle[of unconfirmed_env "Inl (Error ''block height exceeded'')"
      "''PRIVATE_KEY_BASE58''"]
  by (simp add: unconfirmed_env_def keyed_source)

lemma healthy_cycle:
  "checkAndTrade source_config healthy_env 0 =
     (Inr Confirmed,
      [FetchQuote (quote_url USDC_MINT WSOL_MINT (JNum 10000000)),
       FetchQuote (quote_url WSOL_MINT USDC_MINT (JStr ''60000'')),
       Notify [(''profit'', PNum (13 / 10000)), (''inputAmount'', PNum 10),
               (''fees'', PNum (1 / 200000)), (''privateKey'', PStr ''PRIVATE_KEY_BASE58'')],
       FetchSwapInstructions (swap_request_of source_config (sample_quote ''60000'')),
       FetchSwapInstructions (swap_request_of source_config (sample_quote ''10001300'')),
       GetLatestBlockhash,
       Simulate signed_cycle_tx,
       SendTransaction signed_cycle_tx,
       ConfirmTransaction (Some ''SIGNATURE'') ''BLOCKHASH'' 250000000])"
  using healthy_like_cycle[of healthy_env "Inr None" "''PRIVATE_KEY_BASE58''"]
  by (simp add: healthy_env_def keyed_source)

text \<open>
  A cycle whose confirmation times out: the confirmation is event number 8, the last
  one, right after the broadcast, and the cycle fails with the timeout.
\<close>

theorem confirmation_failure_not_resubmitted_witness:
  "snd (checkAndTrade source_config unconfirmed_env 0)
     = [FetchQuote (quote_url USDC_MINT WSOL_MINT (JNum 10000000)),
        FetchQuote (quote_url WSOL_MINT USDC_MINT (JStr ''60000'')),
        Notify [(''profit'', PNum (13 / 10000)), (''inputAmount'', PNum 10),
                (''fees'', PNum (1 / 200000)), (''privateKey'', PStr ''PRIVATE_KEY_BASE58'')],
        FetchSwapInstructions (swap_request_of source_config (sample_quote ''60000'')),
        FetchSwapInstructions (swap_request_of source_config (sample_quote ''10001300'')),
        GetLatestBlockhash,
        Simulate signed_cycle_tx,
        SendTransaction signed_cycle_tx]
       @ ConfirmTransaction (Some ''SIGNATURE'') ''BLOCKHASH'' 250000000 # []
   \<and> confirm_rpc unconfirmed_env 8 = Inl (Error ''block height exceeded'')
   \<and> fst (checkAndTrade source_config unconfirmed_env 0)
       = Inr (Failed (SendError (Error ''block height exceeded'')))"
proof -
  let ?pre = "[FetchQuote (quote_url USDC_MINT WSOL_MINT (JNum 10000000)),
        FetchQuote (quote_url WSOL_MINT USDC_MINT (JStr ''60000'')),
        Notify [(''profit'', PNum (13 / 10000)), (''inputAmount'', PNum 10),
                (''fees'', PNum (1 / 200000)), (''privateKey'', PStr ''PRIVATE_KEY_BASE58'')],
        FetchSwapInstructions (swap_request_of source_config (sample_quote ''60000'')),
        FetchSwapInstructions (swap_request_of source_config (sample_quote ''10001300'')),
        GetLatestBlockhash,
        Simulate signed_cycle_tx,
        SendTransaction signed_cycle_tx]"
  have ev: "snd (checkAndTrade source_config unconfirmed_env 0)
      = ?pre @ ConfirmTransaction (Some ''SIGNATURE'') ''BLOCKHASH'' 250000000 # []"
    by (simp add: unconfirmed_cycle)
  have cf: "confirm_rpc unconfirmed_env (0 + length ?pre) = Inl (Error ''block height exceeded'')"
    by (simp add: unconfirmed_env_def)
  from confirmation_failure_not_resubmitted[of source_config unconfirmed_env 0, rule_format, OF ev]
  have "\<forall>err. confirm_rpc unconfirmed_env (0 + length ?pre) = Inl err
          \<longrightarrow> fst (checkAndTrade source_config unconfirmed_env 0) = Inr (Failed (SendError err))"
    by blast
  with cf have "fst (checkAndTrade source_config unconfirmed_env 0)
       = Inr (Failed (SendError (Error ''block height exceeded'')))"
    by blast
  moreover have "confirm_rpc unconfirmed_env 8 = Inl (Error ''block height exceeded'')"
    by (simp add: unconfirmed_env_def)
  ultimately show ?thesis using ev by simp
qed

section \<open>The cycle and the main loop\<close>



lemma down_cycle:
  "checkAndTrade cfg down_env t =
     (Inr (Failed (CycleError (Error ''ECONNREFUSED''))),
      [FetchQuote (quote_url USDC_MINT WSOL_MINT (JNum (INPUT_USDC cfg))), Sleep 1000,
       FetchQuote (quote_url USDC_MINT WSOL_MINT (JNum (INPUT_USDC cfg))), Sleep 2000,
       FetchQuote (quote_url USDC_MINT WSOL_MINT (JNum (INPUT_USDC cfg)))])"
proof -
  have down: "\<And>u. quote_attempt down_env u = Inl (Error ''ECONNREFUSED'')"
    by (simp add: quote_attempt_def down_env_def healthy_env_def)
  have "getQuote down_env USDC_MINT WSOL_MINT (JNum (INPUT_USDC cfg)) 3 t =
     (Inl (Error ''ECONNREFUSED''),
      [FetchQuote (quote_url USDC_MINT WSOL_MINT (JNum (INPUT_USDC cfg))), Sleep 1000,
       FetchQuote (quote_url USDC_MINT WSOL_MINT (JNum (INPUT_USDC cfg))), Sleep 2000,
       FetchQuote (quote_url USDC_MINT WSOL_MINT (JNum (INPUT_USDC cfg)))])"
    by (simp add: getQuote_def getQuote_from_unfold down)
  then show ?thesis
    by (simp add: checkAndTrade_def checkAndTrade_try_def MAX_RETRIES_def)
qed

text \<open>The events of one pass of the loop while the pricing service is down.\<close>

lemma down_iteration:
  "loop_iteration cfg down_env s =
     \<lparr>consecutiveErrors = consecutiveErrors s + 1,
      trace = trace s @
        [FetchQuote (quote_url USDC_MINT WSOL_MINT (JNum (INPUT_USDC cfg))), Sleep 1000,
         FetchQuote (quote_url USDC_MINT WSOL_MINT (JNum (INPUT_USDC cfg))), Sleep 2000,
         FetchQuote (quote_url USDC_MINT WSOL_MINT (JNum (INPUT_USDC cfg))), Sleep 5000]\<rparr>"
  by (simp add: loop_iteration_def down_cycle)

lemma down_loop:
  "main_loop cfg down_env n s =
     \<lparr>consecutiveErrors = consecutiveErrors s + n,
      trace = trace s @ concat (replicate n
        [FetchQuote (quote_url USDC_MINT WSOL_MINT (JNum (INPUT_USDC cfg))), Sleep 1000,
         FetchQuote (quote_url USDC_MINT WSOL_MINT (JNum (INPUT_USDC cfg))), Sleep 2000,
         FetchQuote (quote_url USDC_MINT WSOL_MINT (JNum (INPUT_USDC cfg))), Sleep 5000])\<rparr>"
proof (induction n arbitrary: s)
  case 0
  then show ?case by simp
next
  case (Suc n)
  show ?case
    by (simp add: Suc.IH down_iteration)
qed

lemma replicate_5: "replicate 5 x = [x, x, x, x, x]"
  by (simp add: eval_nat_numeral)

lemma replicate_6: "replicate 6 x = [x, x, x, x, x, x]"
  by (simp add: eval_nat_numeral)

text \<open>
  Claim C1. The claim asks that the loop pauses for 30000 ms and resets its counter
  once five cycles in a row have failed. The loop does not: the test of the counter
  against the threshold stands in the \<^verbatim>\<open>catch\<close> branch only, and a failed cycle
  resolves to \<^verbatim>\<open>false\<close>. With the pricing service down, under every configuration,
  five passes of the loop leave the counter at 5, their events hold no 30000 ms pause
  and end with the 5000 ms pause, and a sixth pass takes the counter to 6.
\<close>

theorem five_failed_cycles_no_cooldown:
  "consecutiveErrors (main_loop cfg down_env 5 initial_state) = 5
   \<and> Sleep 30000 \<notin> set (trace (main_loop cfg down_env 5 initial_state))
   \<and> last (trace (main_loop cfg down_env 5 initial_state)) = Sleep 5000
   \<and> consecutiveErrors (main_loop cfg down_env 6 initial_state) = 6
   \<and> Sleep 30000 \<notin> set (trace (main_loop cfg down_env 6 initial_state))"
  by (simp add: down_loop initial_state_def replicate_5 replicate_6)

text \<open>
  Claim C2. The claim asks that the notification holds the profit, the input amount
  and the fee estimate and never the signing key. The object that \<^verbatim>\<open>checkAndTrade\<close>
  hands to \<^verbatim>\<open>BotOpportunity\<close> has a fourth field \<^verbatim>\<open>privateKey\<close> with the base58 key
  of the configuration, for every configuration and sell quote; in the cycle where every
  service answers, whatever key is configured, the third event is the notification and
  it holds that key.
\<close>

theorem notification_carries_private_key:
  "map fst (opportunity_of cfg sellOut) = [''profit'', ''inputAmount'', ''fees'', ''privateKey'']
   \<and> map_of (opportunity_of cfg sellOut) ''privateKey'' = Some (PStr (PRIVATE_KEY_BASE58 cfg))
   \<and> snd (checkAndTrade (keyed_config key) healthy_env 0) ! 2
       = Notify [(''profit'', PNum (13 / 10000)), (''inputAmount'', PNum 10),
                 (''fees'', PNum (1 / 200000)), (''privateKey'', PStr key)]"
  using healthy_like_cycle[of healthy_env "Inr None" key]
  by (simp add: opportunity_of_def healthy_env_def)

section \<open>The profit check\<close>

lemma getQuote_starts:
  "0 < retries \<Longrightarrow> \<exists>rest. snd (getQuote e a b amt retries t) = FetchQuote (quote_url a b amt) # rest"
  by (simp add: getQuote_def getQuote_from_unfold split: sum.splits)

lemma no_build_call_set:
  "list_all (\<lambda>ev. \<not> is_build_call ev) es \<Longrightarrow> FetchSwapInstructions rq \<notin> set es"
  by (auto simp: list_all_iff)

text \<open>
  Claim C4. In every cycle, for every input amount and profit threshold of the
  configuration: if the instruction service is called at all, then both quotes were
  obtained, the sell quote was asked with the output amount of the buy quote as its
  amount, and the output amount of the sell quote, as an integer, is at least the input
  amount plus the threshold. When both quotes are obtained and the output amount of the
  sell quote is below that sum, the cycle ends as failed for insufficient profit, its
  events are those of the two quote calls, and the instruction service is not called.
\<close>

theorem profit_gate:
  "(\<forall>rq. FetchSwapInstructions rq \<in> set (snd (checkAndTrade cfg e t)) \<longrightarrow>
      (\<exists>quoteBuy es1 quoteSell es2 sellOut.
          getQuote e USDC_MINT WSOL_MINT (JNum (INPUT_USDC cfg)) MAX_RETRIES t
            = (Inr (Some quoteBuy), es1)
        \<and> getQuote e WSOL_MINT USDC_MINT (outAmount quoteBuy) MAX_RETRIES (t + length es1)
            = (Inr (Some quoteSell), es2)
        \<and> BigInt (outAmount quoteSell) = Inr sellOut
        \<and> sellOut \<ge> INPUT_USDC cfg + MIN_PROFIT_USDC cfg))
   \<and> (\<forall>quoteBuy es1 quoteSell es2 sellOut.
          getQuote e USDC_MINT WSOL_MINT (JNum (INPUT_USDC cfg)) MAX_RETRIES t
            = (Inr (Some quoteBuy), es1)
        \<and> getQuote e WSOL_MINT USDC_MINT (outAmount quoteBuy) MAX_RETRIES (t + length es1)
            = (Inr (Some quoteSell), es2)
        \<and> BigInt (outAmount quoteSell) = Inr sellOut
        \<and> sellOut < INPUT_USDC cfg + MIN_PROFIT_USDC cfg
      \<longrightarrow> checkAndTrade cfg e t = (Inr (Failed InsufficientProfit), es1 @ es2)
          \<and> list_all (\<lambda>ev. \<not> is_build_call ev) (es1 @ es2)
          \<and> (\<exists>rest. es2 = FetchQuote (quote_url WSOL_MINT USDC_MINT (outAmount quoteBuy)) # rest))"
proof (intro conjI allI impI)
  fix rq
  assume called: "FetchSwapInstructions rq \<in> set (snd (checkAndTrade cfg e t))"
  obtain r1 es1 where
    g1: "getQuote e USDC_MINT WSOL_MINT (JNum (INPUT_USDC cfg)) MAX_RETRIES t = (r1, es1)"
    by (cases "getQuote e USDC_MINT WSOL_MINT (JNum (INPUT_USDC cfg)) MAX_RETRIES t")
  from getQuote_no_build[of e USDC_MINT WSOL_MINT "JNum (INPUT_USDC cfg)" MAX_RETRIES t] g1
  have n1: "FetchSwapInstructions rq \<notin> set es1" by (simp add: no_build_call_set)
  have ev: "snd (checkAndTrade cfg e t) = snd (checkAndTrade_try cfg e t)"
    by (rule checkAndTrade_events)
  show "\<exists>quoteBuy es1 quoteSell es2 sellOut.
          getQuote e USDC_MINT WSOL_MINT (JNum (INPUT_USDC cfg)) MAX_RETRIES t
            = (Inr (Some quoteBuy), es1)
        \<and> getQuote e WSOL_MINT USDC_MINT (outAmount quoteBuy) MAX_RETRIES (t + length es1)
            = (Inr (Some quoteSell), es2)
        \<and> BigInt (outAmount quoteSell) = Inr sellOut
        \<and> sellOut \<ge> INPUT_USDC cfg + MIN_PROFIT_USDC cfg"
  proof (cases r1)
    case (Inl err)
    with g1 n1 called ev show ?thesis by (simp add: checkAndTrade_try_def)
  next
    case (Inr q1)
    show ?thesis
    proof (cases q1)
      case None
      with Inr g1 n1 called ev show ?thesis by (simp add: checkAndTrade_try_def)
    next
      case (Some quoteBuy)
      obtain r2 es2 where
        g2: "getQuote e WSOL_MINT USDC_MINT (outAmount quoteBuy) MAX_RETRIES (t + length es1) = (r2, es2)"
        by (cases "getQuote e WSOL_MINT USDC_MINT (outAmount quoteBuy) MAX_RETRIES (t + length es1)")
      from getQuote_no_build[of e WSOL_MINT USDC_MINT "outAmount quoteBuy" MAX_RETRIES "t + length es1"] g2
      have n2: "FetchSwapInstructions rq \<notin> set es2" by (simp add: no_build_call_set)
      show ?thesis
      proof (cases r2)
        case (Inl err)
        with Inr Some g1 g2 n1 n2 called ev show ?thesis by (simp add: checkAndTrade_try_def)
      next
        case r2: (Inr q2)
        show ?thesis
        proof (cases q2)
          case None
          with Inr Some r2 g1 g2 n1 n2 called ev show ?thesis by (simp add: checkAndTrade_try_def)
        next
          case sell: (Some quoteSell)
          have res: "snd (checkAndTrade_try cfg e t) =
              es1 @ es2 @ snd (profit_check cfg e quoteBuy quoteSell (t + length es1 + length es2))"
            using Inr Some r2 sell g1 g2 by (simp add: checkAndTrade_try_def case_prod_beta)
          show ?thesis
          proof (cases "BigInt (outAmount quoteSell)")
            case (Inl err)
            with res n1 n2 called ev show ?thesis by (simp add: profit_check_def)
          next
            case big: (Inr sellOut)
            show ?thesis
            proof (cases "sellOut < required cfg")
              case True
              with big res n1 n2 called ev show ?thesis by (simp add: profit_check_def)
            next
              case False
              then have "sellOut \<ge> INPUT_USDC cfg + MIN_PROFIT_USDC cfg"
                by (simp add: required_def)
              with g1 g2 Inr Some r2 sell big show ?thesis by blast
            qed
          qed
        qed
      qed
    qed
  qed
next
  fix quoteBuy es1 quoteSell es2 sellOut
  assume a: "getQuote e USDC_MINT WSOL_MINT (JNum (INPUT_USDC cfg)) MAX_RETRIES t
            = (Inr (Some quoteBuy), es1)
        \<and> getQuote e WSOL_MINT USDC_MINT (outAmount quoteBuy) MAX_RETRIES (t + length es1)
            = (Inr (Some quoteSell), es2)
        \<and> BigInt (outAmount quoteSell) = Inr sellOut
        \<and> sellOut < INPUT_USDC cfg + MIN_PROFIT_USDC cfg"
  then show "checkAndTrade cfg e t = (Inr (Failed InsufficientProfit), es1 @ es2)"
    by (simp add: checkAndTrade_def checkAndTrade_try_def profit_check_def required_def)
  from a getQuote_no_build[of e USDC_MINT WSOL_MINT "JNum (INPUT_USDC cfg)" MAX_RETRIES t]
    getQuote_no_build[of e WSOL_MINT USDC_MINT "outAmount quoteBuy" MAX_RETRIES "t + length es1"]
  show "list_all (\<lambda>ev. \<not> is_build_call ev) (es1 @ es2)" by simp
  have "0 < MAX_RETRIES" by (simp add: MAX_RETRIES_def)
  from getQuote_starts[OF this, of e WSOL_MINT USDC_MINT "outAmount quoteBuy" "t + length es1"] a
  show "\<exists>rest. es2 = FetchQuote (quote_url WSOL_MINT USDC_MINT (outAmount quoteBuy)) # rest"
    by simp
qed

lemma thin_quotes:
  "getQuote thin_env USDC_MINT WSOL_MINT (JNum 10000000) MAX_RETRIES 0
     = (Inr (Some (sample_quote ''60000'')),
        [FetchQuote (quote_url USDC_MINT WSOL_MINT (JNum 10000000))])"
  "getQuote thin_env WSOL_MINT USDC_MINT (JStr ''60000'') MAX_RETRIES 1
     = (Inr (Some (sample_quote ''10000500'')),
        [FetchQuote (quote_url WSOL_MINT USDC_MINT (JStr ''60000''))])"
  by (simp_all add: getQuote_first_ok MAX_RETRIES_def quote_attempt_def thin_env_def healthy_env_def
        sample_quote_def)

text \<open>
  With an input of 10000000, a threshold of 1200 and a sell quote of 10000500, the
  cycle ends for insufficient profit after the two quote requests; with a sell quote of
  10001300 the instruction service is called.
\<close>

theorem profit_gate_witness:
  "getQuote thin_env USDC_MINT WSOL_MINT (JNum (INPUT_USDC source_config)) MAX_RETRIES 0
     = (Inr (Some (sample_quote ''60000'')),
        [FetchQuote (quote_url USDC_MINT WSOL_MINT (JNum 10000000))])
   \<and> getQuote thin_env WSOL_MINT USDC_MINT (outAmount (sample_quote ''60000'')) MAX_RETRIES 1
     = (Inr (Some (sample_quote ''10000500'')),
        [FetchQuote (quote_url WSOL_MINT USDC_MINT (JStr ''60000''))])
   \<and> BigInt (outAmount (sample_quote ''10000500'')) = Inr 10000500
   \<and> (10000500::int) < INPUT_USDC source_config + MIN_PROFIT_USDC source_config
   \<and> checkAndTrade source_config thin_env 0
       = (Inr (Failed InsufficientProfit),
          [FetchQuote (quote_url USDC_MINT WSOL_MINT (JNum 10000000)),
           FetchQuote (quote_url WSOL_MINT USDC_MINT (JStr ''60000''))])
   \<and> FetchSwapInstructions (swap_request_of source_config (sample_quote ''60000''))
        \<in> set (snd (checkAndTrade source_config healthy_env 0))
   \<and> (\<exists>quoteBuy es1 quoteSell es2 sellOut.
          getQuote healthy_env USDC_MINT WSOL_MINT (JNum (INPUT_USDC source_config)) MAX_RETRIES 0
            = (Inr (Some quoteBuy), es1)
        \<and> getQuote healthy_env WSOL_MINT USDC_MINT (outAmount quoteBuy) MAX_RETRIES (0 + length es1)
            = (Inr (Some quoteSell), es2)
        \<and> BigInt (outAmount quoteSell) = Inr sellOut
        \<and> sellOut \<ge> INPUT_USDC source_config + MIN_PROFIT_USDC source_config)"
proof -
  have g1: "getQuote thin_env USDC_MINT WSOL_MINT (JNum (INPUT_USDC source_config)) MAX_RETRIES 0
     = (Inr (Some (sample_quote ''60000'')),
        [FetchQuote (quote_url USDC_MINT WSOL_MINT (JNum 10000000))])"
    using thin_quotes(1) by (simp add: source_config_def)
  have g2: "getQuote thin_env WSOL_MINT USDC_MINT (outAmount (sample_quote ''60000'')) MAX_RETRIES
        (0 + length [FetchQuote (quote_url USDC_MINT WSOL_MINT (JNum 10000000))])
     = (Inr (Some (sample_quote ''10000500'')),
        [FetchQuote (quote_url WSOL_MINT USDC_MINT (JStr ''60000''))])"
    using thin_quotes(2) by (simp add: sample_quote_def)
  have big: "BigInt (outAmount (sample_quote ''10000500'')) = Inr 10000500"
    using BigInt_thin_sell by (simp add: sample_quote_def del: BigInt.simps)
  have low: "(10000500::int) < INPUT_USDC source_config + MIN_PROFIT_USDC source_config"
    by (simp add: source_config_def)
  from profit_gate[of source_config thin_env 0, THEN conjunct2, rule_format,
      of "sample_quote ''60000''" _ "sample_quote ''10000500''" _ 10000500] g1 g2 big low
  have fail: "checkAndTrade source_config thin_env 0
       = (Inr (Failed InsufficientProfit),
          [FetchQuote (quote_url USDC_MINT WSOL_MINT (JNum 10000000)),
           FetchQuote (quote_url WSOL_MINT USDC_MINT (JStr ''60000''))])"
    by simp
  have called: "FetchSwapInstructions (swap_request_of source_config (sample_quote ''60000''))
        \<in> set (snd (checkAndTrade source_config healthy_env 0))"
    by (simp add: healthy_cycle)
  from profit_gate[of source_config healthy_env 0, THEN conjunct1, rule_format, OF called]
  have "\<exists>quoteBuy es1 quoteSell es2 sellOut.
          getQuote healthy_env USDC_MINT WSOL_MINT (JNum (INPUT_USDC source_config)) MAX_RETRIES 0
            = (Inr (Some quoteBuy), es1)
        \<and> getQuote healthy_env WSOL_MINT USDC_MINT (outAmount quoteBuy) MAX_RETRIES (0 + length es1)
            = (Inr (Some quoteSell), es2)
        \<and> BigInt (outAmount quoteSell) = Inr sellOut
        \<and> sellOut \<ge> INPUT_USDC source_config + MIN_PROFIT_USDC source_config" .
  with g1 g2 big low fail called show ?thesis by simp
qed

section \<open>The lookup tables of a response\<close>

lemma warning_of_kept: "blob_kept e tbl \<Longrightarrow> warning_of e tbl = None"
  by (simp add: blob_kept_def warning_of_def Let_def)

lemma collect_alts_short:
  "length tables + length blobs \<le> maxAlts \<Longrightarrow>
   collect_alts e blobs tables warnings =
     (tables @ map (alt_of_blob e) (filter (blob_kept e) blobs),
      warnings @ List.map_filter (warning_of e) blobs)"
proof (induction blobs arbitrary: tables warnings)
  case Nil
  then show ?case by (simp add: map_filter_simps)
next
  case (Cons tbl rest)
  show ?case
  proof (cases "blob_kept e tbl")
    case False
    then have "\<exists>w. warning_of e tbl = Some w
        \<and> collect_alts e (tbl # rest) tables warnings
            = collect_alts e rest tables (warnings @ [w])"
      by (cases "length (base64_decode e (blob_data tbl)) > 1000";
          cases "pubkey_invalid e (accountKey tbl)")
         (simp_all add: blob_kept_def warning_of_def Let_def)
    then obtain w where w: "warning_of e tbl = Some w"
      and step: "collect_alts e (tbl # rest) tables warnings
                   = collect_alts e rest tables (warnings @ [w])"
      by blast
    from Cons.prems have "length tables + length rest \<le> maxAlts" by simp
    from Cons.IH[OF this, of "warnings @ [w]"] step w False show ?thesis
      by (simp add: map_filter_simps)
  next
    case True
    let ?tables' = "tables @ [alt_of_blob e tbl]"
    have step: "collect_alts e (tbl # rest) tables warnings =
        (if length ?tables' \<ge> maxAlts then (?tables', warnings)
         else collect_alts e rest ?tables' warnings)"
      using True by (simp add: blob_kept_def alt_of_blob_def Let_def)
    show ?thesis
    proof (cases "length ?tables' \<ge> maxAlts")
      case full: True
      with Cons.prems have "rest = []" by (cases rest) simp_all
      with step full True show ?thesis by (simp add: map_filter_simps warning_of_kept)
    next
      case False
      from Cons.prems have "length ?tables' + length rest \<le> maxAlts" by simp
      from Cons.IH[OF this, of warnings] step False True show ?thesis
        by (simp add: map_filter_simps warning_of_kept)
    qed
  qed
qed

lemma examine_response_spec:
  "examine_response e res =
     (map (alt_of_blob e) (filter (blob_kept e)
        (take 2 (case addressLookupTableAccounts res of None \<Rightarrow> [] | Some l \<Rightarrow> l))),
      List.map_filter (warning_of e)
        (take 2 (case addressLookupTableAccounts res of None \<Rightarrow> [] | Some l \<Rightarrow> l)))"
proof -
  have "length ([]::alt list) + length (take maxAlts
      (case addressLookupTableAccounts res of None \<Rightarrow> [] | Some l \<Rightarrow> l)) \<le> maxAlts"
    by simp
  from collect_alts_short[OF this, of e "[]"] show ?thesis
    by (simp add: examine_response_def maxAlts_def)
qed

text \<open>
  Claim C5, as the code has it. The instruction builder examines the first two tables
  of the response only, in the order received: of these it discards a table whose raw
  length exceeds 1000 bytes and a table that the library does not decode, each with the
  warning that names it, and keeps the others. A table after the second is never
  examined, also when one of the first two was discarded: it is neither kept nor named
  in a warning. The tables of a payload are the tables so selected from its response.
\<close>

theorem first_two_tables_examined:
  "response_alts e res =
     map (alt_of_blob e) (filter (blob_kept e)
       (take 2 (case addressLookupTableAccounts res of None \<Rightarrow> [] | Some l \<Rightarrow> l)))
   \<and> response_warnings e res =
       List.map_filter (warning_of e)
         (take 2 (case addressLookupTableAccounts res of None \<Rightarrow> [] | Some l \<Rightarrow> l))
   \<and> (\<forall>p. swap_api e t = Inr res \<and> swap_attempt e t = Inr p \<longrightarrow> lookupTables p = response_alts e res)"
proof (intro conjI)
  show "response_alts e res =
     map (alt_of_blob e) (filter (blob_kept e)
       (take 2 (case addressLookupTableAccounts res of None \<Rightarrow> [] | Some l \<Rightarrow> l)))"
    by (simp add: response_alts_def examine_response_spec)
  show "response_warnings e res =
       List.map_filter (warning_of e)
         (take 2 (case addressLookupTableAccounts res of None \<Rightarrow> [] | Some l \<Rightarrow> l))"
    by (simp add: response_warnings_def examine_response_spec)
  show "\<forall>p. swap_api e t = Inr res \<and> swap_attempt e t = Inr p \<longrightarrow> lookupTables p = response_alts e res"
    by (auto simp: swap_attempt_def split: option.splits sum.splits)
qed

lemma sample_blob_decoded:
  "n mod 3 = 0 \<Longrightarrow> base64_decode healthy_env (blob_data (sample_blob k n)) = replicate n 0"
  by (auto simp: healthy_env_def sample_blob_def)

lemma sample_blob_alt:
  "n mod 3 = 0 \<Longrightarrow> alt_of_blob healthy_env (sample_blob k n) = sample_alt k n"
  by (simp add: alt_of_blob_def sample_blob_decoded sample_alt_def) (simp add: sample_blob_def)

lemma sample_blob_kept:
  "n mod 3 = 0 \<Longrightarrow> k \<noteq> [] \<Longrightarrow> blob_kept healthy_env (sample_blob k n) = (n \<le> 1000)"
  by (simp add: blob_kept_def sample_blob_decoded) (simp add: healthy_env_def sample_blob_def)

lemma sample_blob_warning:
  "n mod 3 = 0 \<Longrightarrow> k \<noteq> [] \<Longrightarrow>
   warning_of healthy_env (sample_blob k n) = (if n > 1000 then Some (TooLarge k n) else None)"
  by (simp add: warning_of_def sample_blob_decoded) (simp add: healthy_env_def sample_blob_def)

lemma refusing_decoded:
  "base64_decode refusing_env = base64_decode healthy_env"
  "base64_decode refused_env = base64_decode healthy_env"
  by (simp_all add: refused_env_def refusing_env_def)

lemma refusing_blob_kept: "\<not> blob_kept refusing_env tbl" "\<not> blob_kept refused_env tbl"
  by (simp_all add: blob_kept_def refused_env_def refusing_env_def)

lemma refusing_blob_warning:
  "n mod 3 = 0 \<Longrightarrow>
   warning_of refusing_env (sample_blob k n) = Some (if n > 1000 then TooLarge k n else NotDeserialized k)"
  "n mod 3 = 0 \<Longrightarrow>
   warning_of refused_env (sample_blob k n) = Some (if n > 1000 then TooLarge k n else NotDeserialized k)"
  by (simp_all add: warning_of_def refusing_decoded sample_blob_decoded)
     (simp_all add: refused_env_def refusing_env_def sample_blob_def)

text \<open>
  Claim C5, as stated, fails. Take a library that decodes no table and a response with
  an oversized table followed by two small ones. No table is kept, so under the claim
  the third table is attempted too and its warning printed. The code stops after the
  second table: it prints the warnings of the first two tables, and none for the third.
\<close>

theorem later_tables_not_attempted:
  "response_alts refusing_env oversized_first = []
   \<and> response_warnings refusing_env oversized_first
       = [TooLarge ''BIG'' 1002, NotDeserialized ''T1'']
   \<and> kept_until_two refusing_env
        [sample_blob ''BIG'' 1002, sample_blob ''T1'' 60, sample_blob ''T2'' 90] = []
   \<and> attempted_until_two refusing_env
        [sample_blob ''BIG'' 1002, sample_blob ''T1'' 60, sample_blob ''T2'' 90] 0
       = [sample_blob ''BIG'' 1002, sample_blob ''T1'' 60, sample_blob ''T2'' 90]
   \<and> warnings_until_two refusing_env
        [sample_blob ''BIG'' 1002, sample_blob ''T1'' 60, sample_blob ''T2'' 90]
       = [TooLarge ''BIG'' 1002, NotDeserialized ''T1'', NotDeserialized ''T2'']
   \<and> response_warnings refusing_env oversized_first
       \<noteq> warnings_until_two refusing_env
            [sample_blob ''BIG'' 1002, sample_blob ''T1'' 60, sample_blob ''T2'' 90]"
proof -
  have a: "response_alts refusing_env oversized_first = []"
    by (simp add: response_alts_def examine_response_spec refusing_blob_kept)
  have b: "response_warnings refusing_env oversized_first
       = [TooLarge ''BIG'' 1002, NotDeserialized ''T1'']"
    by (simp add: response_warnings_def examine_response_spec oversized_first_def
          numeral_2_eq_2 map_filter_simps refusing_blob_warning)
  have c: "kept_until_two refusing_env
        [sample_blob ''BIG'' 1002, sample_blob ''T1'' 60, sample_blob ''T2'' 90] = []"
    by (simp add: kept_until_two_def refusing_blob_kept)
  have d: "attempted_until_two refusing_env
        [sample_blob ''BIG'' 1002, sample_blob ''T1'' 60, sample_blob ''T2'' 90] 0
       = [sample_blob ''BIG'' 1002, sample_blob ''T1'' 60, sample_blob ''T2'' 90]"
    by (simp add: refusing_blob_kept)
  have e: "warnings_until_two refusing_env
        [sample_blob ''BIG'' 1002, sample_blob ''T1'' 60, sample_blob ''T2'' 90]
       = [TooLarge ''BIG'' 1002, NotDeserialized ''T1'', NotDeserialized ''T2'']"
    unfolding warnings_until_two_def d by (simp add: map_filter_simps refusing_blob_warning)
  show ?thesis unfolding a b c d e by simp
qed

text \<open>
  The response with an oversized table followed by two small ones. With the library
  that decodes no table, the payload built from this response has no table, and the
  warnings name the first two tables. With a library that decodes the tables, of the
  first two tables the second is kept, the only warning names the first, and a payload
  built from this response has the second table.
\<close>

theorem first_two_tables_examined_witness:
  "swap_api refused_env 0 = Inr oversized_first
   \<and> swap_attempt refused_env 0 = Inr \<lparr>instructions = [sample_ix], lookupTables = []\<rparr>
   \<and> response_alts refused_env oversized_first = []
   \<and> response_warnings refused_env oversized_first
       = [TooLarge ''BIG'' 1002, NotDeserialized ''T1'']
   \<and> swap_api oversized_env 0 = Inr oversized_first
   \<and> swap_attempt oversized_env 0
       = Inr \<lparr>instructions = [sample_ix], lookupTables = [sample_alt ''T1'' 60]\<rparr>
   \<and> response_alts oversized_env oversized_first = [sample_alt ''T1'' 60]
   \<and> response_warnings oversized_env oversized_first = [TooLarge ''BIG'' 1002]"
proof -
  have api: "swap_api oversized_env 0 = Inr oversized_first"
    "swap_api refused_env 0 = Inr oversized_first"
    by (simp_all add: oversized_env_def refused_env_def)
  have lib: "pubkey_invalid oversized_env = pubkey_invalid healthy_env"
    "base64_decode oversized_env = base64_decode healthy_env"
    "alt_deserialize_throws oversized_env = alt_deserialize_throws healthy_env"
    "pubkey_invalid refused_env = pubkey_invalid healthy_env"
    "base64_decode refused_env = base64_decode healthy_env"
    by (simp_all add: oversized_env_def refused_env_def refusing_env_def)
  have kept: "blob_kept oversized_env = blob_kept healthy_env"
    and alt: "alt_of_blob oversized_env = alt_of_blob healthy_env"
    and warn: "warning_of oversized_env = warning_of healthy_env"
    by (simp_all add: blob_kept_def alt_of_blob_def warning_of_def Let_def lib fun_eq_iff)
  have ix: "build_instruction oversized_env
      \<lparr>si_programId = ''JUP6'', si_accounts = [], si_data = ''AAAA''\<rparr> = Inr sample_ix"
    "build_instruction refused_env
      \<lparr>si_programId = ''JUP6'', si_accounts = [], si_data = ''AAAA''\<rparr> = Inr sample_ix"
    by (simp_all add: build_instruction_def lib sample_ix_def) (simp_all add: healthy_env_def)
  note decoding = first_two_tables_examined[of oversized_env oversized_first 0]
  note refusing = first_two_tables_examined[of refused_env oversized_first 0]
  from decoding have alts: "response_alts oversized_env oversized_first = [sample_alt ''T1'' 60]"
    by (simp add: kept alt oversized_first_def numeral_2_eq_2 sample_blob_kept sample_blob_alt)
  from decoding have warns: "response_warnings oversized_env oversized_first = [TooLarge ''BIG'' 1002]"
    by (simp add: warn oversized_first_def numeral_2_eq_2 map_filter_simps sample_blob_warning)
  from refusing have alts': "response_alts refused_env oversized_first = []"
    by (simp add: refusing_blob_kept)
  from refusing have warns': "response_warnings refused_env oversized_first
       = [TooLarge ''BIG'' 1002, NotDeserialized ''T1'']"
    by (simp add: oversized_first_def numeral_2_eq_2 map_filter_simps refusing_blob_warning)
  have "swap_attempt oversized_env 0
      = Inr \<lparr>instructions = [sample_ix], lookupTables = response_alts oversized_env oversized_first\<rparr>"
    using ix by (simp add: swap_attempt_def api) (simp add: oversized_first_def)
  moreover have "swap_attempt refused_env 0
      = Inr \<lparr>instructions = [sample_ix], lookupTables = response_alts refused_env oversized_first\<rparr>"
    using ix by (simp add: swap_attempt_def api) (simp add: oversized_first_def)
  ultimately show ?thesis using api alts warns alts' warns' by simp
qed

section \<open>The lookup-table optimizer\<close>

lemma collect_sizes_spec:
  "collect_sizes e xs seen acc =
     acc @ List.map_filter (with_size e) (first_by_key (filter (\<lambda>x. alt_key x \<notin> seen) xs))"
proof (induction xs arbitrary: seen acc)
  case Nil
  then show ?case by (simp add: map_filter_simps)
next
  case (Cons x xs)
  show ?case
  proof (cases "alt_key x \<in> seen")
    case True
    with Cons.IH[of seen acc] show ?thesis by simp
  next
    case False
    have filt: "filter (\<lambda>y. alt_key y \<notin> insert (alt_key x) seen) xs
        = filter (\<lambda>y. alt_key y \<noteq> alt_key x) (filter (\<lambda>y. alt_key y \<notin> seen) xs)"
      by (induction xs) auto
    have rhs: "first_by_key (filter (\<lambda>y. alt_key y \<notin> seen) (x # xs))
        = x # first_by_key (filter (\<lambda>y. alt_key y \<noteq> alt_key x) (filter (\<lambda>y. alt_key y \<notin> seen) xs))"
      using False by (simp del: filter_filter)
    show ?thesis
    proof (cases "alt_serialize e x")
      case (Inl err)
      have lhs: "collect_sizes e (x # xs) seen acc = collect_sizes e xs (insert (alt_key x) seen) acc"
        using False Inl by (simp add: Let_def)
      have none: "with_size e x = None" using Inl by (simp add: with_size_def)
      from Cons.IH[of "insert (alt_key x) seen" acc]
      have "collect_sizes e xs (insert (alt_key x) seen) acc = acc @ List.map_filter (with_size e)
          (first_by_key (filter (\<lambda>y. alt_key y \<noteq> alt_key x) (filter (\<lambda>y. alt_key y \<notin> seen) xs)))"
        by (simp only: filt)
      then show ?thesis by (simp only: lhs rhs map_filter_simps none option.case)
    next
      case (Inr serialized)
      let ?s = "\<lparr>as_alt = x, as_size = length serialized, as_key = alt_key x\<rparr>"
      have lhs: "collect_sizes e (x # xs) seen acc
          = collect_sizes e xs (insert (alt_key x) seen) (acc @ [?s])"
        using False Inr by (simp add: Let_def)
      have some: "with_size e x = Some ?s" using Inr by (simp add: with_size_def)
      from Cons.IH[of "insert (alt_key x) seen" "acc @ [?s]"]
      have "collect_sizes e xs (insert (alt_key x) seen) (acc @ [?s]) = (acc @ [?s]) @ List.map_filter (with_size e)
          (first_by_key (filter (\<lambda>y. alt_key y \<noteq> alt_key x) (filter (\<lambda>y. alt_key y \<notin> seen) xs)))"
        by (simp only: filt)
      then show ?thesis by (simp only: lhs rhs map_filter_simps some option.case append_assoc append_Cons append_Nil)
    qed
  qed
qed

lemma optimize_alts_spec: "optimize_alts e alts1 alts2 = smallest_two e alts1 alts2"
  by (simp add: optimize_alts_def smallest_two_def collect_sizes_spec Let_def)

lemma set_first_by_key: "set (first_by_key xs) \<subseteq> set xs"
  by (induction xs rule: first_by_key.induct) auto

lemma distinct_first_by_key: "distinct (map alt_key (first_by_key xs))"
proof (induction xs rule: first_by_key.induct)
  case 1
  then show ?case by simp
next
  case (2 x xs)
  from set_first_by_key[of "filter (\<lambda>y. alt_key y \<noteq> alt_key x) xs"]
  have "alt_key x \<notin> alt_key ` set (first_by_key (filter (\<lambda>y. alt_key y \<noteq> alt_key x) xs))"
    by auto
  with 2 show ?case by simp
qed

lemma sized_alts:
  "map as_alt (List.map_filter (with_size e) xs) = filter (serializes e) xs"
  by (induction xs) (auto simp: map_filter_simps with_size_def serializes_def split: sum.splits)

lemma sized_sizes:
  "s \<in> set (List.map_filter (with_size e) xs) \<Longrightarrow>
   as_size s = serialized_length e (as_alt s) \<and> as_key s = alt_key (as_alt s)"
  by (induction xs)
     (auto simp: map_filter_simps with_size_def serialized_length_def split: sum.splits)

text \<open>
  Claim C9. For every pair of table lists, the tables that step 4 of \<^verbatim>\<open>checkAndTrade\<close>
  selects are those of the specification: the lists merged with the buy leg first, the
  first table of each key kept, the tables that do not serialise dropped, the rest
  sorted by serialised length, the first two taken. The result has two tables, or all
  survivors when there are fewer; its tables are survivors with distinct keys, in
  ascending order of serialised length; and every survivor left out is at least as long
  as every table selected. The selection is a total function: it does not fail.
\<close>

theorem optimizer_smallest_two:
  "optimize_alts e alts1 alts2 = smallest_two e alts1 alts2
   \<and> length (optimize_alts e alts1 alts2) = min 2 (length (survivors e alts1 alts2))
   \<and> set (optimize_alts e alts1 alts2) \<subseteq> set (survivors e alts1 alts2)
   \<and> distinct (map alt_key (optimize_alts e alts1 alts2))
   \<and> sorted (map (serialized_length e) (optimize_alts e alts1 alts2))
   \<and> (\<forall>x \<in> set (survivors e alts1 alts2).
         x \<in> set (optimize_alts e alts1 alts2)
         \<or> (\<forall>y \<in> set (optimize_alts e alts1 alts2). serialized_length e y \<le> serialized_length e x))"
proof -
  define S where "S = List.map_filter (with_size e) (first_by_key (alts1 @ alts2))"
  define T where "T = sort_key as_size S"
  have res: "optimize_alts e alts1 alts2 = map as_alt (take 2 T)"
    by (simp add: optimize_alts_spec smallest_two_def S_def T_def)
  have surv: "map as_alt S = survivors e alts1 alts2"
    by (simp add: S_def survivors_def sized_alts)
  have setT: "set T = set S" by (simp add: T_def)
  have sizes: "\<And>s. s \<in> set T \<Longrightarrow> as_size s = serialized_length e (as_alt s)"
    using sized_sizes[of _ e "first_by_key (alts1 @ alts2)"] by (simp add: setT S_def)
  have sortedT: "sorted (map as_size T)" by (simp add: T_def sorted_sort_key)
  have len: "length (optimize_alts e alts1 alts2) = min 2 (length (survivors e alts1 alts2))"
  proof -
    have "length (survivors e alts1 alts2) = length S" using surv[symmetric] by simp
    then show ?thesis by (simp add: res T_def min.commute)
  qed
  have sub: "set (optimize_alts e alts1 alts2) \<subseteq> set (survivors e alts1 alts2)"
  proof -
    have "set (map as_alt (take 2 T)) \<subseteq> set (map as_alt T)"
      using set_take_subset[of 2 T] by auto
    also have "\<dots> = set (map as_alt S)" by (simp add: setT)
    finally show ?thesis by (simp add: res surv)
  qed
  have dist: "distinct (map alt_key (optimize_alts e alts1 alts2))"
  proof -
    have "distinct (map alt_key (survivors e alts1 alts2))"
      unfolding survivors_def by (rule distinct_map_filter) (rule distinct_first_by_key)
    then have "distinct (map (alt_key \<circ> as_alt) S)" using surv[symmetric] by simp
    then have "distinct (map (alt_key \<circ> as_alt) T)"
      by (simp add: distinct_map T_def)
    then have "distinct (take 2 (map (alt_key \<circ> as_alt) T))" by (rule distinct_take)
    then show ?thesis by (simp add: res take_map)
  qed
  have sorted_res: "sorted (map (serialized_length e) (optimize_alts e alts1 alts2))"
  proof -
    have "map (serialized_length e) (map as_alt (take 2 T)) = map as_size (take 2 T)"
      using sizes by (auto dest: in_set_takeD)
    also have "\<dots> = take 2 (map as_size T)" by (simp add: take_map)
    finally show ?thesis using sortedT by (simp add: res sorted_wrt_take)
  qed
  have least: "\<forall>x \<in> set (survivors e alts1 alts2).
         x \<in> set (optimize_alts e alts1 alts2)
         \<or> (\<forall>y \<in> set (optimize_alts e alts1 alts2). serialized_length e y \<le> serialized_length e x)"
  proof
    fix x assume "x \<in> set (survivors e alts1 alts2)"
    then have "x \<in> as_alt ` set T" using surv[symmetric] setT by simp
    then obtain s where s: "s \<in> set T" "x = as_alt s" by blast
    have split: "T = take 2 T @ drop 2 T" by simp
    show "x \<in> set (optimize_alts e alts1 alts2)
         \<or> (\<forall>y \<in> set (optimize_alts e alts1 alts2). serialized_length e y \<le> serialized_length e x)"
    proof (cases "s \<in> set (take 2 T)")
      case True
      with s(2) show ?thesis by (simp add: res)
    next
      case False
      with s(1) split have sd: "s \<in> set (drop 2 T)"
        by (metis Un_iff set_append)
      have "sorted (map as_size (take 2 T) @ map as_size (drop 2 T))"
        using sortedT by (metis split map_append)
      then have le: "\<And>a b. a \<in> set (take 2 T) \<Longrightarrow> b \<in> set (drop 2 T) \<Longrightarrow> as_size a \<le> as_size b"
        by (auto simp: sorted_append)
      have "\<forall>y \<in> set (optimize_alts e alts1 alts2). serialized_length e y \<le> serialized_length e x"
      proof
        fix y assume "y \<in> set (optimize_alts e alts1 alts2)"
        then obtain a where a: "a \<in> set (take 2 T)" "y = as_alt a" by (auto simp: res)
        from le[OF a(1) sd] have "as_size a \<le> as_size s" .
        moreover have "a \<in> set T" using a(1) by (rule in_set_takeD)
        ultimately show "serialized_length e y \<le> serialized_length e x"
          using sizes[of a] sizes[OF s(1)] a(2) s(2) by simp
      qed
      then show ?thesis ..
    qed
  qed
  from optimize_alts_spec len sub dist sorted_res least show ?thesis by blast
qed

lemma first_by_key_sample:
  "first_by_key ([sample_alt ''A'' 500, sample_alt ''B'' 50]
      @ [sample_alt ''B'' 70, sample_alt ''BAD'' 5, sample_alt ''C'' 10])
   = [sample_alt ''A'' 500, sample_alt ''B'' 50, sample_alt ''BAD'' 5, sample_alt ''C'' 10]"
  by (simp add: sample_alt_def)

lemma bad_table_serialize:
  "alt_serialize bad_table_env (sample_alt k n)
     = (if k = ''BAD'' then Inl (Error ''serialize failed'') else Inr (replicate n 0))"
  by (simp add: bad_table_env_def sample_alt_def)

text \<open>
  Tables of 500 and 50 bytes from the buy leg; from the sell leg a second table with
  the key of the 50-byte one, a table that does not serialise and a table of 10 bytes:
  the tables of 10 and 50 bytes are selected, in this order, and the table of 500 bytes,
  a survivor, is left out.
\<close>

theorem optimizer_smallest_two_witness:
  "sample_alt ''A'' 500
     \<in> set (survivors bad_table_env [sample_alt ''A'' 500, sample_alt ''B'' 50]
              [sample_alt ''B'' 70, sample_alt ''BAD'' 5, sample_alt ''C'' 10])
   \<and> optimize_alts bad_table_env [sample_alt ''A'' 500, sample_alt ''B'' 50]
        [sample_alt ''B'' 70, sample_alt ''BAD'' 5, sample_alt ''C'' 10]
       = [sample_alt ''C'' 10, sample_alt ''B'' 50]
   \<and> serialized_length bad_table_env (sample_alt ''C'' 10)
        \<le> serialized_length bad_table_env (sample_alt ''A'' 500)
   \<and> serialized_length bad_table_env (sample_alt ''B'' 50)
        \<le> serialized_length bad_table_env (sample_alt ''A'' 500)"
proof -
  let ?alts1 = "[sample_alt ''A'' 500, sample_alt ''B'' 50]"
  let ?alts2 = "[sample_alt ''B'' 70, sample_alt ''BAD'' 5, sample_alt ''C'' 10]"
  have surv: "survivors bad_table_env ?alts1 ?alts2
      = [sample_alt ''A'' 500, sample_alt ''B'' 50, sample_alt ''C'' 10]"
    unfolding survivors_def first_by_key_sample
    by (simp add: serializes_def bad_table_serialize)
  have sized: "List.map_filter (with_size bad_table_env)
        [sample_alt ''A'' 500, sample_alt ''B'' 50, sample_alt ''BAD'' 5, sample_alt ''C'' 10]
      = [\<lparr>as_alt = sample_alt ''A'' 500, as_size = 500, as_key = ''A''\<rparr>,
         \<lparr>as_alt = sample_alt ''B'' 50, as_size = 50, as_key = ''B''\<rparr>,
         \<lparr>as_alt = sample_alt ''C'' 10, as_size = 10, as_key = ''C''\<rparr>]"
    by (simp add: map_filter_simps with_size_def bad_table_serialize) (simp add: sample_alt_def)
  have "smallest_two bad_table_env ?alts1 ?alts2 = [sample_alt ''C'' 10, sample_alt ''B'' 50]"
    unfolding smallest_two_def first_by_key_sample sized
    by (simp add: numeral_2_eq_2)
  with optimizer_smallest_two[of bad_table_env ?alts1 ?alts2]
  have res: "optimize_alts bad_table_env ?alts1 ?alts2 = [sample_alt ''C'' 10, sample_alt ''B'' 50]"
    by simp
  have mem: "sample_alt ''A'' 500 \<in> set (survivors bad_table_env ?alts1 ?alts2)"
    by (simp add: surv)
  have out: "sample_alt ''A'' 500 \<notin> set (optimize_alts bad_table_env ?alts1 ?alts2)"
    unfolding res by (simp add: sample_alt_def)
  from optimizer_smallest_two[of bad_table_env ?alts1 ?alts2] mem out
  have "\<forall>y \<in> set (optimize_alts bad_table_env ?alts1 ?alts2).
      serialized_length bad_table_env y \<le> serialized_length bad_table_env (sample_alt ''A'' 500)"
    by blast
  then have "serialized_length bad_table_env (sample_alt ''C'' 10)
        \<le> serialized_length bad_table_env (sample_alt ''A'' 500)"
    "serialized_length bad_table_env (sample_alt ''B'' 50)
        \<le> serialized_length bad_table_env (sample_alt ''A'' 500)"
    unfolding res by simp_all
  with mem res show ?thesis by blast
qed

end
